theory Spec2Isabelle
  imports Complex_Main "HOL-Library.Sublist" "HOL-Library.Log_Nat"
begin

section \<open>Numbers and geometry\<close>

text \<open>
  TypeScript's \<open>number\<close> is an IEEE 754 double. Every finite double is a rational, so
  \<open>number\<close> is the type of rationals, and an operation of the doubles is the exact
  operation followed by rounding to the nearest double, ties to even (\<open>roundDouble\<close>).
  The rounding is written out where a property below depends on it: in the scroll planner,
  whose step \<open>visibleHeight * 0.8\<close> and running sum are not exact, and in the two
  products that give the stitched canvas its dimensions, which the browser truncates to
  integers. The remaining geometry (crop areas, overlaps, draw rectangles) is computed
  exactly; it agrees with the doubles whenever the exact results are doubles, as for the
  integers and the dyadic fractions of the examples. \<open>NaN\<close>, negative zero and the infinities are outside the
  model: a result beyond the largest double is rounded to 53 bits like any other instead of
  becoming \<open>Infinity\<close>. The constant \<open>1.5\<close> is the double \<open>3/2\<close>; the constant
  \<open>0.8\<close> is \<open>roundDouble (4/5)\<close>.
\<close>

type_synonym number = rat

subsection \<open>Rounding to double precision\<close>

text \<open>Rounding of a rational to an integer, halves to the even neighbour.\<close>

definition roundHalfEven :: "rat \<Rightarrow> int" where
  "roundHalfEven q =
     (let n = \<lfloor>q\<rfloor>; d = q - of_int n
      in if d < 1/2 then n else if 1/2 < d then n + 1 else if even n then n else n + 1)"

text \<open>
  The finite doubles are the numbers \<open>m * 2^k / 2^1074\<close> with \<open>\<bar>m\<bar> < 2^53\<close> and
  \<open>k \<le> 2045\<close>: the normal numbers have \<open>2^52 \<le> \<bar>m\<bar>\<close>, the subnormal ones
  \<open>k = 0\<close>. The model has no bound on \<open>k\<close>. \<open>roundScaled\<close> rounds
  a non-negative rational: it expresses it in units of \<open>2^-1074\<close>, drops the bits beyond
  the 53rd (\<open>bitlen\<close> is the number of binary digits of the integer part) and rounds
  what is dropped. \<open>roundDouble\<close> rounds the absolute value and restores the sign.
\<close>

definition minExponent :: nat where
  "minExponent = 1074"

definition roundScaled :: "rat \<Rightarrow> rat" where
  "roundScaled x =
     (let y = x * 2 ^ minExponent;
          k = nat (bitlen \<lfloor>y\<rfloor> - 53)
      in of_int (roundHalfEven (y / 2 ^ k)) * 2 ^ k / 2 ^ minExponent)"

definition roundDouble :: "rat \<Rightarrow> number" where
  "roundDouble x = (if x < 0 then - roundScaled (- x) else roundScaled x)"

text \<open>The operators \<open>+\<close>, \<open>-\<close> and \<open>*\<close> of the doubles.\<close>

definition fadd :: "number \<Rightarrow> number \<Rightarrow> number" where
  "fadd a b = roundDouble (a + b)"

definition fsub :: "number \<Rightarrow> number \<Rightarrow> number" where
  "fsub a b = roundDouble (a - b)"

definition fmul :: "number \<Rightarrow> number \<Rightarrow> number" where
  "fmul a b = roundDouble (a * b)"

subsection \<open>Geometry records\<close>

text \<open>\<open>DOMRect\<close> as the code builds it: eight plain fields (\<open>toJSON\<close> is not data).\<close>

record DOMRect =
  rect_x :: number
  rect_y :: number
  rect_width :: number
  rect_height :: number
  rect_top :: number
  rect_right :: number
  rect_bottom :: number
  rect_left :: number

text \<open>\<open>DOMMatrix\<close>, restricted to the six entries of a 2D affine transform.\<close>

record DOMMatrix =
  m_a :: number
  m_b :: number
  m_c :: number
  m_d :: number
  m_e :: number
  m_f :: number

record ScrollPosition =
  sp_x :: number
  sp_y :: number
  isComplete :: bool

record ShadowInfo =
  boxShadow :: string
  textShadow :: string
  shadowBounds :: DOMRect

record IframeInfo =
  iframeSelector :: string
  iframeBounds :: DOMRect
  relativePosition :: "number \<times> number"

text \<open>
  \<open>ElementInfo\<close> of \<open>src/types/index.ts\<close>. The field \<open>computedStyles\<close> (nine style
  strings) is read by none of the functions below and is left out.
\<close>

record ElementInfo =
  selector :: string
  boundingRect :: DOMRect
  isScrollable :: bool
  totalHeight :: number
  visibleHeight :: number
  hasTransform :: bool
  transformMatrix :: "DOMMatrix option"
  hasShadow :: bool
  shadowInfo :: "ShadowInfo option"
  isInIframe :: bool
  iframeInfo :: "IframeInfo option"
  isFixed :: bool
  zIndex :: number

record LongScreenshotSegment =
  dataUrl :: string
  scrollPosition :: ScrollPosition
  segmentIndex :: nat
  elementRect :: DOMRect

section \<open>Scroll detection in the content script\<close>

text \<open>What \<open>detectScrollableElement\<close> reads from the element and from the window.\<close>

record Element =
  el_rect :: DOMRect
  el_scrollHeight :: number
  el_clientHeight :: number
  el_overflowY :: string
  el_overflow :: string

record Window =
  innerHeight :: number
  scrollX :: number
  scrollY :: number
  docScrollLeft :: number
  docScrollTop :: number

record ScrollInfo =
  si_isScrollable :: bool
  si_totalHeight :: number
  si_visibleHeight :: number

definition detectScrollableElement :: "Window \<Rightarrow> Element \<Rightarrow> ScrollInfo" where
  "detectScrollableElement w element =
     (let rect = el_rect element;
          hasVerticalOverflow =
            (el_overflowY element = ''scroll'' \<or> el_overflowY element = ''auto'' \<or>
             el_overflow element = ''scroll'' \<or> el_overflow element = ''auto'');
          scrollHeight = el_scrollHeight element;
          clientHeight = el_clientHeight element;
          visibleHeight = rect_height rect;
          isScrollable = (hasVerticalOverflow \<and> scrollHeight > clientHeight);
          exceedsViewport = (scrollHeight > innerHeight w * (3/2));
          isLongContent = (isScrollable \<or> exceedsViewport)
      in \<lparr> si_isScrollable = isLongContent,
           si_totalHeight = max scrollHeight visibleHeight,
           si_visibleHeight = visibleHeight \<rparr>)"

text \<open>
  The result of \<open>analyzeComplexElement\<close>, spread into the \<open>ElementInfo\<close> by
  \<open>getElementInfo\<close>. Its keys are disjoint from the scroll fields.
\<close>

record ComplexInfo =
  cx_hasTransform :: bool
  cx_transformMatrix :: "DOMMatrix option"
  cx_hasShadow :: bool
  cx_shadowInfo :: "ShadowInfo option"
  cx_isInIframe :: bool
  cx_iframeInfo :: "IframeInfo option"
  cx_isFixed :: bool
  cx_zIndex :: number

text \<open>\<open>a || b\<close> on numbers: \<open>a\<close> unless it is zero.\<close>

definition orElse :: "number \<Rightarrow> number \<Rightarrow> number" where
  "orElse a b = (if a \<noteq> 0 then a else b)"

text \<open>
  \<open>getElementInfo\<close>; the selector (from \<open>generateElementSelector\<close>) and the complex
  properties (from \<open>analyzeComplexElement\<close>) are computed from the DOM and passed in.
\<close>

definition getElementInfo :: "Window \<Rightarrow> Element \<Rightarrow> string \<Rightarrow> ComplexInfo \<Rightarrow> ElementInfo" where
  "getElementInfo w element sel complexInfo =
     (let rect = el_rect element;
          sx = orElse (scrollX w) (docScrollLeft w);
          sy = orElse (scrollY w) (docScrollTop w);
          scrollInfo = detectScrollableElement w element
      in \<lparr> selector = sel,
           boundingRect = \<lparr> rect_x = rect_left rect + sx, rect_y = rect_top rect + sy,
                            rect_width = rect_width rect, rect_height = rect_height rect,
                            rect_top = rect_top rect + sy, rect_right = rect_right rect + sx,
                            rect_bottom = rect_bottom rect + sy, rect_left = rect_left rect + sx \<rparr>,
           isScrollable = si_isScrollable scrollInfo,
           totalHeight = si_totalHeight scrollInfo,
           visibleHeight = si_visibleHeight scrollInfo,
           hasTransform = cx_hasTransform complexInfo,
           transformMatrix = cx_transformMatrix complexInfo,
           hasShadow = cx_hasShadow complexInfo,
           shadowInfo = cx_shadowInfo complexInfo,
           isInIframe = cx_isInIframe complexInfo,
           iframeInfo = cx_iframeInfo complexInfo,
           isFixed = cx_isFixed complexInfo,
           zIndex = cx_zIndex complexInfo \<rparr>)"

section \<open>The scroll planner of \<open>ScreenshotProcessor\<close>\<close>

text \<open>
  The \<open>while\<close> loop of \<open>calculateScrollSegments\<close>, with the array \<open>segments\<close> and
  the variable \<open>currentScrollTop\<close> as arguments. The safety limit is tested after the
  push, on the length of the array. \<open>currentScrollTop += segmentHeight\<close> is an addition
  of doubles; the comparisons are exact. For doubles
  \<open>0 \<le> visibleHeight < totalHeight \<le> 2^1023\<close> no operation of the planner exceeds the
  largest double (the step is at most \<open>visibleHeight\<close>, and a sum is formed from an
  offset below the extent only, so it is below \<open>totalHeight + visibleHeight\<close>): there
  the model computes what the code computes.
\<close>

function scrollLoop :: "number \<Rightarrow> number \<Rightarrow> ScrollPosition list \<Rightarrow> number \<Rightarrow> ScrollPosition list" where
  "scrollLoop segmentHeight totalScrollHeight segments currentScrollTop =
     (if currentScrollTop \<le> totalScrollHeight then
        (let pushed = segments @ [\<lparr> sp_x = 0, sp_y = currentScrollTop,
                                     isComplete = (currentScrollTop \<ge> totalScrollHeight) \<rparr>]
         in if currentScrollTop \<ge> totalScrollHeight then pushed
            else if length pushed > 50 then pushed
            else scrollLoop segmentHeight totalScrollHeight pushed
                   (fadd currentScrollTop segmentHeight))
      else segments)"
  by pat_completeness auto
termination
  by (relation "measure (\<lambda>(_, _, segments, _). 51 - length segments)") auto

declare scrollLoop.simps [simp del]

definition calculateScrollSegments :: "ElementInfo \<Rightarrow> ScrollPosition list" where
  "calculateScrollSegments elementInfo =
     (if \<not> isScrollable elementInfo \<or> totalHeight elementInfo \<le> visibleHeight elementInfo then
        [\<lparr> sp_x = 0, sp_y = 0, isComplete = True \<rparr>]
      else
        (let segmentHeight = fmul (visibleHeight elementInfo) (roundDouble (4/5));
             totalScrollHeight = fsub (totalHeight elementInfo) (visibleHeight elementInfo)
         in scrollLoop segmentHeight totalScrollHeight [] 0))"

text \<open>An element info with the given scroll geometry and no complex properties.\<close>

definition plainElement :: "bool \<Rightarrow> number \<Rightarrow> number \<Rightarrow> number \<Rightarrow> ElementInfo" where
  "plainElement scrollable w tot vis =
     \<lparr> selector = ''.long-content'',
       boundingRect = \<lparr> rect_x = 0, rect_y = 0, rect_width = w, rect_height = vis,
                        rect_top = 0, rect_right = w, rect_bottom = vis, rect_left = 0 \<rparr>,
       isScrollable = scrollable, totalHeight = tot, visibleHeight = vis,
       hasTransform = False, transformMatrix = None, hasShadow = False, shadowInfo = None,
       isInIframe = False, iframeInfo = None, isFixed = False, zIndex = 0 \<rparr>"

text \<open>The entry pushed at scroll offset \<open>y\<close> when the scrollable extent is \<open>T\<close>.\<close>

definition mkOffset :: "number \<Rightarrow> number \<Rightarrow> ScrollPosition" where
  "mkOffset T y = \<lparr> sp_x = 0, sp_y = y, isComplete = (T \<le> y) \<rparr>"

text \<open>The step and the scrollable extent that the planner computes, and the value of
  \<open>currentScrollTop\<close> after \<open>k\<close> additions of the step \<open>s\<close> to the start \<open>c\<close>.\<close>

definition plannerStep :: "ElementInfo \<Rightarrow> number" where
  "plannerStep e = fmul (visibleHeight e) (roundDouble (4/5))"

definition plannerExtent :: "ElementInfo \<Rightarrow> number" where
  "plannerExtent e = fsub (totalHeight e) (visibleHeight e)"

fun runningSum :: "number \<Rightarrow> number \<Rightarrow> nat \<Rightarrow> number" where
  "runningSum c s 0 = c"
| "runningSum c s (Suc k) = fadd (runningSum c s k) s"

text \<open>The geometries used as examples: an element 2400 tall seen through 600, one
  100000 tall seen through 100, and one 3840 tall seen through 768, whose step
  \<open>768 * 0.8\<close> is not exact.\<close>

definition wideElement :: ElementInfo where
  "wideElement = plainElement True 1024 3840 768"

definition longElement :: ElementInfo where
  "longElement = plainElement True 800 2400 600"

definition hugeElement :: ElementInfo where
  "hugeElement = plainElement True 800 100000 100"

section \<open>Error classification and retry (\<open>ErrorHandler\<close>)\<close>

datatype ScreenshotError =
  ELEMENT_NOT_FOUND | PERMISSION_DENIED | CAPTURE_FAILED | PROCESSING_ERROR | DOWNLOAD_FAILED

datatype Severity = SevLow | SevMedium | SevHigh | SevCritical

text \<open>
  \<open>ErrorInfo\<close>. The fields \<open>chineseMessage\<close> and \<open>userAction\<close> hold fixed user-facing
  texts that the table below attaches to each code; they are represented by the code.
\<close>

record ErrorInfo =
  code :: ScreenshotError
  message :: string
  severity :: Severity
  retryable :: bool
  fallbackAvailable :: bool

fun ERROR_DEFINITIONS :: "ScreenshotError \<Rightarrow> ErrorInfo" where
  "ERROR_DEFINITIONS ELEMENT_NOT_FOUND =
     \<lparr> code = ELEMENT_NOT_FOUND, message = ''Element not found on the page'',
       severity = SevMedium, retryable = False, fallbackAvailable = False \<rparr>"
| "ERROR_DEFINITIONS PERMISSION_DENIED =
     \<lparr> code = PERMISSION_DENIED, message = ''Permission denied for screenshot capture'',
       severity = SevHigh, retryable = False, fallbackAvailable = False \<rparr>"
| "ERROR_DEFINITIONS CAPTURE_FAILED =
     \<lparr> code = CAPTURE_FAILED, message = ''Failed to capture screenshot'',
       severity = SevMedium, retryable = True, fallbackAvailable = True \<rparr>"
| "ERROR_DEFINITIONS PROCESSING_ERROR =
     \<lparr> code = PROCESSING_ERROR, message = ''Error processing screenshot'',
       severity = SevMedium, retryable = True, fallbackAvailable = True \<rparr>"
| "ERROR_DEFINITIONS DOWNLOAD_FAILED =
     \<lparr> code = DOWNLOAD_FAILED, message = ''Failed to download screenshot'',
       severity = SevLow, retryable = True, fallbackAvailable = True \<rparr>"

text \<open>\<open>createErrorInfo(error, technicalDetails, customMessage)\<close>: an empty or absent
  custom message keeps the table's message.\<close>

definition createErrorInfo :: "ScreenshotError \<Rightarrow> string option \<Rightarrow> ErrorInfo" where
  "createErrorInfo error customMessage =
     (let baseInfo = ERROR_DEFINITIONS error
      in baseInfo \<lparr> message := (case customMessage of
                                   None \<Rightarrow> message baseInfo
                                 | Some c \<Rightarrow> if c = [] then message baseInfo else c) \<rparr>)"

text \<open>
  Messages are strings of 8-bit characters. \<open>toLowerCase\<close> maps \<open>A\<close>..\<open>Z\<close> to
  \<open>a\<close>..\<open>z\<close> and leaves every other character alone; \<open>includes\<close> (here \<open>includesStr\<close>) is the search for a
  contiguous occurrence.
\<close>

definition lowerChar :: "char \<Rightarrow> char" where
  "lowerChar c = (if 65 \<le> (of_char c :: nat) \<and> (of_char c :: nat) \<le> 90
                  then char_of ((of_char c :: nat) + 32) else c)"

definition toLowerCase :: "string \<Rightarrow> string" where
  "toLowerCase s = map lowerChar s"

fun startsWith :: "string \<Rightarrow> string \<Rightarrow> bool" where
  "startsWith s [] = True"
| "startsWith [] (p # ps) = False"
| "startsWith (c # cs) (p # ps) = (c = p \<and> startsWith cs ps)"

fun includesStr :: "string \<Rightarrow> string \<Rightarrow> bool" where
  "includesStr [] sub = (sub = [])"
| "includesStr (c # cs) sub = (startsWith (c # cs) sub \<or> includesStr cs sub)"

definition classifyError :: "string \<Rightarrow> ScreenshotError" where
  "classifyError errorMessage =
     (let message = toLowerCase errorMessage
      in if includesStr message ''element not found'' \<or> includesStr message ''selector'' then
           ELEMENT_NOT_FOUND
         else if includesStr message ''permission'' \<or> includesStr message ''denied'' \<or>
                 includesStr message ''unauthorized'' then
           PERMISSION_DENIED
         else if includesStr message ''download'' \<or> includesStr message ''save'' then
           DOWNLOAD_FAILED
         else if includesStr message ''capture'' \<or> includesStr message ''screenshot'' then
           CAPTURE_FAILED
         else PROCESSING_ERROR)"

text \<open>
  The classification in words, for comparison with the code: \<open>containsKeyword m k\<close> says
  that the lower-cased message has the keyword as a contiguous part, and the keyword groups
  are tried in the order of the code.
\<close>

definition containsKeyword :: "string \<Rightarrow> string \<Rightarrow> bool" where
  "containsKeyword errorMessage keyword = sublist keyword (toLowerCase errorMessage)"

definition classifyByKeyword :: "string \<Rightarrow> ScreenshotError" where
  "classifyByKeyword m =
     (if containsKeyword m ''element not found'' \<or> containsKeyword m ''selector'' then
        ELEMENT_NOT_FOUND
      else if containsKeyword m ''permission'' \<or> containsKeyword m ''denied'' \<or>
              containsKeyword m ''unauthorized'' then PERMISSION_DENIED
      else if containsKeyword m ''download'' \<or> containsKeyword m ''save'' then DOWNLOAD_FAILED
      else if containsKeyword m ''capture'' \<or> containsKeyword m ''screenshot'' then CAPTURE_FAILED
      else PROCESSING_ERROR)"

subsection \<open>Configuration\<close>












subsection \<open>Fallback strategies\<close>






subsection \<open>\<open>handleError\<close>\<close>







section \<open>Cropping and stitching (\<open>ScreenshotProcessor\<close>)\<close>

record CropArea =
  crop_x :: number
  crop_y :: number
  crop_width :: number
  crop_height :: number

text \<open>A decoded raster: where it came from and its pixel size.\<close>

record Image =
  img_src :: string
  img_width :: number
  img_height :: number

text \<open>
  The canvas is modelled by its size in pixels and the drawing calls made on its 2D
  context, in order. \<open>DrawImage img sx sy sw sh dx dy dw dh\<close> is the nine-argument
  \<open>drawImage\<close>, which paints nothing for an empty source rectangle and does not throw
  on a zero or negative size. The data URL returned by \<open>toDataURL\<close> encodes this canvas
  and is represented by it.
\<close>

datatype DrawOp =
  DrawImage Image number number number number number number number number
| SetTransform number number number number number number
| Save
| Restore

record Canvas =
  cv_width :: nat
  cv_height :: nat
  cv_ops :: "DrawOp list"

text \<open>
  \<open>canvas.width\<close> and \<open>canvas.height\<close> are attributes of type \<open>unsigned long\<close>.
  Assigning a number converts it: the fraction is dropped (towards zero) and the integer
  is taken modulo \<open>2^32\<close>; the setter then stores the attribute's default (300 for the
  width, 150 for the height) in place of a value above 2147483647.
\<close>

definition truncateNumber :: "number \<Rightarrow> int" where
  "truncateNumber v = (if v < 0 then - \<lfloor>- v\<rfloor> else \<lfloor>v\<rfloor>)"

definition toUnsignedLong :: "number \<Rightarrow> nat" where
  "toUnsignedLong v = nat (truncateNumber v mod 2 ^ 32)"

definition setCanvasDimension :: "nat \<Rightarrow> number \<Rightarrow> nat" where
  "setCanvasDimension defaultValue v =
     (if toUnsignedLong v \<le> 2147483647 then toUnsignedLong v else defaultValue)"

text \<open>
  The browser, as far as these functions see it: whether \<open>getContext('2d')\<close> yields a
  context, and which data URLs decode to an image (\<open>None\<close>: the \<open>onerror\<close> path of
  \<open>loadImage\<close>).
\<close>

record Host =
  contextAvailable :: bool
  decodeImage :: "string \<Rightarrow> Image option"

definition loadImage :: "Host \<Rightarrow> string \<Rightarrow> string + Image" where
  "loadImage host url =
     (case decodeImage host url of
        None \<Rightarrow> Inl ''Failed to load image''
      | Some img \<Rightarrow> Inr img)"

definition adjustCropArea :: "CropArea \<Rightarrow> number \<Rightarrow> number \<Rightarrow> CropArea" where
  "adjustCropArea cropArea imageWidth imageHeight =
     (let ax = max 0 (min (crop_x cropArea) (imageWidth - 1));
          ay = max 0 (min (crop_y cropArea) (imageHeight - 1));
          aw = min (crop_width cropArea) (imageWidth - ax);
          ah = min (crop_height cropArea) (imageHeight - ay)
      in \<lparr> crop_x = ax, crop_y = ay, crop_width = max 1 aw, crop_height = max 1 ah \<rparr>)"

text \<open>\<open>matrix.transformPoint\<close> for a 2D matrix.\<close>

definition transformPoint :: "DOMMatrix \<Rightarrow> number \<times> number \<Rightarrow> number \<times> number" where
  "transformPoint m p =
     (m_a m * fst p + m_c m * snd p + m_e m, m_b m * fst p + m_d m * snd p + m_f m)"

definition calculateTransformedBounds :: "DOMRect \<Rightarrow> DOMMatrix \<Rightarrow> DOMRect" where
  "calculateTransformedBounds bounds matrix =
     (let corners = [(rect_left bounds, rect_top bounds), (rect_right bounds, rect_top bounds),
                     (rect_right bounds, rect_bottom bounds), (rect_left bounds, rect_bottom bounds)];
          transformedCorners = map (transformPoint matrix) corners;
          xs = map fst transformedCorners;
          ys = map snd transformedCorners;
          minX = fold min (tl xs) (hd xs);
          maxX = fold max (tl xs) (hd xs);
          minY = fold min (tl ys) (hd ys);
          maxY = fold max (tl ys) (hd ys)
      in \<lparr> rect_x = minX, rect_y = minY, rect_width = maxX - minX, rect_height = maxY - minY,
           rect_top = minY, rect_right = maxX, rect_bottom = maxY, rect_left = minX \<rparr>)"

definition calculateComplexElementCropArea :: "ElementInfo \<Rightarrow> number \<Rightarrow> CropArea" where
  "calculateComplexElementCropArea elementInfo devicePixelRatio =
     (let bounds0 = boundingRect elementInfo;
          bounds1 = (case shadowInfo elementInfo of
                       Some si \<Rightarrow> if hasShadow elementInfo then shadowBounds si else bounds0
                     | None \<Rightarrow> bounds0);
          bounds2 = (case iframeInfo elementInfo of
                       Some fi \<Rightarrow>
                         if isInIframe elementInfo then
                           bounds1 \<lparr> rect_x := rect_x (iframeBounds fi) + fst (relativePosition fi),
                                     rect_y := rect_y (iframeBounds fi) + snd (relativePosition fi),
                                     rect_left := rect_left (iframeBounds fi) + fst (relativePosition fi),
                                     rect_top := rect_top (iframeBounds fi) + snd (relativePosition fi),
                                     rect_right := rect_left (iframeBounds fi)
                                        + fst (relativePosition fi) + rect_width bounds1,
                                     rect_bottom := rect_top (iframeBounds fi)
                                        + snd (relativePosition fi) + rect_height bounds1 \<rparr>
                         else bounds1
                     | None \<Rightarrow> bounds1);
          bounds = (case transformMatrix elementInfo of
                      Some matrix \<Rightarrow>
                        if hasTransform elementInfo then calculateTransformedBounds bounds2 matrix
                        else bounds2
                    | None \<Rightarrow> bounds2)
      in \<lparr> crop_x = rect_left bounds * devicePixelRatio,
           crop_y = rect_top bounds * devicePixelRatio,
           crop_width = rect_width bounds * devicePixelRatio,
           crop_height = rect_height bounds * devicePixelRatio \<rparr>)"

text \<open>The plain nine-argument draw of a crop area at the origin, used by every branch of
  the renderer.\<close>

definition drawCrop :: "Image \<Rightarrow> CropArea \<Rightarrow> DrawOp" where
  "drawCrop img cropArea =
     DrawImage img (crop_x cropArea) (crop_y cropArea) (crop_width cropArea) (crop_height cropArea)
               0 0 (crop_width cropArea) (crop_height cropArea)"

definition handleFixedPositionElement :: "Image \<Rightarrow> ElementInfo \<Rightarrow> CropArea \<Rightarrow> DrawOp list" where
  "handleFixedPositionElement img elementInfo cropArea = [drawCrop img cropArea]"

definition handleTransformedElement :: "Image \<Rightarrow> ElementInfo \<Rightarrow> CropArea \<Rightarrow> DrawOp list" where
  "handleTransformedElement img elementInfo cropArea =
     (case transformMatrix elementInfo of
        Some matrix \<Rightarrow> [SetTransform (m_a matrix) (m_b matrix) (m_c matrix)
                                      (m_d matrix) (m_e matrix) (m_f matrix)]
      | None \<Rightarrow> []) @ [drawCrop img cropArea]"

definition renderComplexElement :: "Image \<Rightarrow> ElementInfo \<Rightarrow> CropArea \<Rightarrow> DrawOp list" where
  "renderComplexElement img elementInfo cropArea =
     [Save] @
     (if isFixed elementInfo then handleFixedPositionElement img elementInfo cropArea
      else if hasTransform elementInfo then handleTransformedElement img elementInfo cropArea
      else [drawCrop img cropArea]) @
     [Restore]"

text \<open>\<open>cropToElement\<close>. A failure is the message of the error it throws.\<close>

definition cropToElement :: "Host \<Rightarrow> string \<Rightarrow> ElementInfo \<Rightarrow> number \<Rightarrow> string + Canvas" where
  "cropToElement host screenshotDataUrl elementInfo devicePixelRatio =
     (if \<not> contextAvailable host then
        Inl (''Screenshot cropping failed: '' @ ''Failed to get canvas context'')
      else case loadImage host screenshotDataUrl of
        Inl msg \<Rightarrow> Inl (''Screenshot cropping failed: '' @ msg)
      | Inr img \<Rightarrow>
          (let cropArea = calculateComplexElementCropArea elementInfo devicePixelRatio;
               adjustedCropArea = adjustCropArea cropArea (img_width img) (img_height img)
           in Inr \<lparr> cv_width = setCanvasDimension 300 (crop_width adjustedCropArea),
                    cv_height = setCanvasDimension 150 (crop_height adjustedCropArea),
                    cv_ops = (if hasTransform elementInfo \<or> hasShadow elementInfo
                                  \<or> isFixed elementInfo
                              then renderComplexElement img elementInfo adjustedCropArea
                              else [drawCrop img adjustedCropArea]) \<rparr>))"

text \<open>
  \<open>calculateOverlapHeight\<close>. Reading a segment beyond the array gives \<open>undefined\<close>, and
  the property access on it throws a \<open>TypeError\<close>: the result \<open>None\<close>.
\<close>

definition calculateOverlapHeight ::
  "LongScreenshotSegment list \<Rightarrow> nat \<Rightarrow> number \<Rightarrow> number option" where
  "calculateOverlapHeight segments currentIndex devicePixelRatio =
     (if currentIndex = 0 then Some 0
      else if currentIndex < length segments then
        (let currentSegment = segments ! currentIndex;
             previousSegment = segments ! (currentIndex - 1);
             scrollDiff = sp_y (scrollPosition currentSegment)
                           - sp_y (scrollPosition previousSegment);
             segmentHeight = rect_height (elementRect currentSegment);
             overlapHeight = max 0 (segmentHeight - scrollDiff)
         in Some (overlapHeight * devicePixelRatio))
      else None)"

text \<open>
  One round of the \<open>for\<close> loop of \<open>stitchScreenshotSegments\<close>, on the canvas and the
  write offset \<open>currentY\<close>.
\<close>

definition stitchStep ::
  "Host \<Rightarrow> LongScreenshotSegment list \<Rightarrow> number \<Rightarrow> number \<Rightarrow> nat \<Rightarrow> Canvas \<times> number
     \<Rightarrow> string + Canvas \<times> number" where
  "stitchStep host segments devicePixelRatio elementWidth i st =
     (if i < length segments then
        (let segment = segments ! i;
             canvas = fst st;
             currentY = snd st
         in case loadImage host (dataUrl segment) of
              Inl msg \<Rightarrow> Inl msg
            | Inr img \<Rightarrow>
                (let cropArea = \<lparr> crop_x = rect_left (elementRect segment) * devicePixelRatio,
                                   crop_y = rect_top (elementRect segment) * devicePixelRatio,
                                   crop_width = elementWidth,
                                   crop_height = rect_height (elementRect segment) * devicePixelRatio \<rparr>;
                     adjustedCropArea = adjustCropArea cropArea (img_width img) (img_height img)
                 in if i > 0 then
                      (case calculateOverlapHeight segments i devicePixelRatio of
                         None \<Rightarrow> Inl ''Cannot read properties of undefined''
                       | Some overlapHeight \<Rightarrow>
                           (let segmentHeight = crop_height adjustedCropArea - overlapHeight
                            in Inr (canvas \<lparr> cv_ops := cv_ops canvas @
                                       [DrawImage img (crop_x adjustedCropArea)
                                          (crop_y adjustedCropArea + overlapHeight)
                                          (crop_width adjustedCropArea) segmentHeight
                                          0 currentY elementWidth segmentHeight] \<rparr>,
                                    currentY + segmentHeight)))
                    else
                      (let segmentHeight = crop_height adjustedCropArea
                       in Inr (canvas \<lparr> cv_ops := cv_ops canvas @
                                  [DrawImage img (crop_x adjustedCropArea) (crop_y adjustedCropArea)
                                     (crop_width adjustedCropArea) segmentHeight
                                     0 currentY elementWidth segmentHeight] \<rparr>,
                               currentY + segmentHeight))))
      else Inl ''Cannot read properties of undefined'')"

fun stitchLoop ::
  "Host \<Rightarrow> LongScreenshotSegment list \<Rightarrow> number \<Rightarrow> number \<Rightarrow> nat list \<Rightarrow> Canvas \<times> number
     \<Rightarrow> string + Canvas \<times> number" where
  "stitchLoop host segments devicePixelRatio elementWidth [] st = Inr st"
| "stitchLoop host segments devicePixelRatio elementWidth (i # rest) st =
     (case stitchStep host segments devicePixelRatio elementWidth i st of
        Inl msg \<Rightarrow> Inl msg
      | Inr st' \<Rightarrow> stitchLoop host segments devicePixelRatio elementWidth rest st')"

text \<open>
  \<open>stitchScreenshotSegments\<close>. The single-segment branch returns the promise of
  \<open>cropToElement\<close> as it is, so its failure is not rewrapped by the \<open>catch\<close>. The two
  products that give the canvas its dimensions are products of doubles.
\<close>

definition stitchScreenshotSegments ::
  "Host \<Rightarrow> LongScreenshotSegment list \<Rightarrow> ElementInfo \<Rightarrow> number \<Rightarrow> string + Canvas" where
  "stitchScreenshotSegments host segments elementInfo devicePixelRatio =
     (case segments of
        [] \<Rightarrow> Inl (''Screenshot stitching failed: '' @ ''No segments to stitch'')
      | [single] \<Rightarrow> cropToElement host (dataUrl single) elementInfo devicePixelRatio
      | _ \<Rightarrow>
          if \<not> contextAvailable host then
            Inl (''Screenshot stitching failed: '' @ ''Failed to get canvas context'')
          else
            (let elementWidth = fmul (rect_width (boundingRect elementInfo)) devicePixelRatio;
                 totalHeightPx = fmul (totalHeight elementInfo) devicePixelRatio;
                 canvas = \<lparr> cv_width = setCanvasDimension 300 elementWidth,
                            cv_height = setCanvasDimension 150 totalHeightPx, cv_ops = [] \<rparr>
             in case stitchLoop host segments devicePixelRatio elementWidth
                       [0..<length segments] (canvas, 0) of
                  Inl msg \<Rightarrow> Inl (''Screenshot stitching failed: '' @ msg)
                | Inr st \<Rightarrow> Inr (fst st)))"

subsection \<open>Reading the drawing calls\<close>

fun destY :: "DrawOp \<Rightarrow> number" where
  "destY (DrawImage img sx sy sw sh dx dy dw dh) = dy"
| "destY _ = 0"

fun destHeight :: "DrawOp \<Rightarrow> number" where
  "destHeight (DrawImage img sx sy sw sh dx dy dw dh) = dh"
| "destHeight _ = 0"

text \<open>The calls are stacked when each one is placed right below the ones before it.\<close>

definition stacked :: "DrawOp list \<Rightarrow> bool" where
  "stacked ops = (\<forall>k<length ops. destY (ops ! k) = sum_list (map destHeight (take k ops)))"

text \<open>
  The stitch plan in words. The crop of a segment is its measured box scaled by the device
  pixel ratio, as wide as the output; the overlap of segment \<open>i > 0\<close> with the one before
  it is \<open>max(0, height - scroll difference) * devicePixelRatio\<close>; the contributed
  (overlap-adjusted) height of a segment is the height of its crop, clamped to the decoded
  raster, less that overlap.
\<close>

definition segmentCrop :: "LongScreenshotSegment \<Rightarrow> number \<Rightarrow> number \<Rightarrow> CropArea" where
  "segmentCrop segment devicePixelRatio elementWidth =
     \<lparr> crop_x = rect_left (elementRect segment) * devicePixelRatio,
       crop_y = rect_top (elementRect segment) * devicePixelRatio,
       crop_width = elementWidth,
       crop_height = rect_height (elementRect segment) * devicePixelRatio \<rparr>"

definition overlapWithPrevious :: "LongScreenshotSegment list \<Rightarrow> nat \<Rightarrow> number \<Rightarrow> number" where
  "overlapWithPrevious segments i devicePixelRatio =
     (if i = 0 then 0
      else max 0 (rect_height (elementRect (segments ! i))
                   - (sp_y (scrollPosition (segments ! i))
                       - sp_y (scrollPosition (segments ! (i - 1))))) * devicePixelRatio)"

definition clampedCropHeight ::
  "Host \<Rightarrow> LongScreenshotSegment \<Rightarrow> number \<Rightarrow> number \<Rightarrow> number" where
  "clampedCropHeight host segment devicePixelRatio elementWidth =
     (case decodeImage host (dataUrl segment) of
        None \<Rightarrow> 0
      | Some img \<Rightarrow>
          crop_height (adjustCropArea (segmentCrop segment devicePixelRatio elementWidth)
                         (img_width img) (img_height img)))"

definition contributedHeight ::
  "Host \<Rightarrow> LongScreenshotSegment list \<Rightarrow> number \<Rightarrow> number \<Rightarrow> nat \<Rightarrow> number" where
  "contributedHeight host segments devicePixelRatio elementWidth i =
     clampedCropHeight host (segments ! i) devicePixelRatio elementWidth
       - overlapWithPrevious segments i devicePixelRatio"

subsection \<open>Example captures\<close>

text \<open>A host whose every screenshot decodes to a raster of the given size.\<close>

definition viewportHost :: "number \<Rightarrow> number \<Rightarrow> Host" where
  "viewportHost w h =
     \<lparr> contextAvailable = True,
       decodeImage = (\<lambda>url. Some \<lparr> img_src = url, img_width = w, img_height = h \<rparr>) \<rparr>"

text \<open>A segment captured at scroll offset \<open>y\<close> with the element measured at the top left,
  \<open>w\<close> wide and \<open>h\<close> tall.\<close>

definition segmentAt :: "nat \<Rightarrow> number \<Rightarrow> number \<Rightarrow> number \<Rightarrow> LongScreenshotSegment" where
  "segmentAt i y w h =
     \<lparr> dataUrl = ''data:image/png;base64,segment'',
       scrollPosition = \<lparr> sp_x = 0, sp_y = y, isComplete = False \<rparr>,
       segmentIndex = i,
       elementRect = \<lparr> rect_x = 0, rect_y = 0, rect_width = w, rect_height = h,
                       rect_top = 0, rect_right = w, rect_bottom = h, rect_left = 0 \<rparr> \<rparr>"

text \<open>The three segments of the repository's stitching test (offsets 0, 480, 960; element
  800 by 600; total height 1800), and two segments taken at the same offset.\<close>

definition testSegments :: "LongScreenshotSegment list" where
  "testSegments = [segmentAt 0 0 800 600, segmentAt 1 480 800 600, segmentAt 2 960 800 600]"

definition testElement :: ElementInfo where
  "testElement = plainElement True 800 1800 600"

definition stuckSegments :: "LongScreenshotSegment list" where
  "stuckSegments = [segmentAt 0 0 800 600, segmentAt 1 0 800 600]"

text \<open>An element 801 wide and 1801 tall, whose size at the device pixel ratio 1.25 is not
  a whole number of pixels.\<close>

definition oddElement :: ElementInfo where
  "oddElement = plainElement True 801 1801 600"

text \<open>The canvas of that test before the first draw, and the raster of a capture.\<close>

definition blankCanvas :: "nat \<Rightarrow> nat \<Rightarrow> Canvas" where
  "blankCanvas w h = \<lparr> cv_width = w, cv_height = h, cv_ops = [] \<rparr>"

definition segmentImage :: "number \<Rightarrow> number \<Rightarrow> Image" where
  "segmentImage w h = \<lparr> img_src = ''data:image/png;base64,segment'', img_width = w, img_height = h \<rparr>"

section \<open>The long-screenshot orchestration (\<open>captureLongScreenshot\<close>)\<close>

text \<open>
  The target element in the page, as the scroll handlers of the content script see it.
  Assigning \<open>scrollTop\<close> is clamped by the browser to the scrollable range.
\<close>

record Page =
  elementPresent :: bool
  scrollTop :: number
  scrollLeft :: number
  maxScrollTop :: number

definition resetElementScroll :: "Page \<Rightarrow> Page" where
  "resetElementScroll p =
     (if elementPresent p then p \<lparr> scrollTop := 0, scrollLeft := 0 \<rparr> else p)"

text \<open>\<open>scrollElementToPosition\<close> throws when the element is missing; the message router
  answers with an error response, which \<open>captureLongScreenshot\<close> does not read, and the
  page is left as it was.\<close>

definition scrollElementToPosition :: "Page \<Rightarrow> number \<Rightarrow> Page" where
  "scrollElementToPosition p y =
     (if elementPresent p then p \<lparr> scrollTop := max 0 (min y (maxScrollTop p)) \<rparr> else p)"

datatype Message = RESET_SCROLL string | SCROLL_TO_POSITION string number

text \<open>The tab: the page and the messages its content script has handled, in order.\<close>

record Tab =
  page :: Page
  delivered :: "Message list"

text \<open>
  The extension APIs during one run: whether \<open>sendMessage\<close> reaches the content script
  when \<open>n\<close> messages have been handled before (it rejects otherwise), what the \<open>i\<close>-th
  \<open>captureVisibleTab\<close> yields (a rejection message or a data URL), and what the \<open>i\<close>-th
  measurement of the element yields.
\<close>

record TabHost =
  deliver :: "nat \<Rightarrow> bool"
  captureVisibleTab :: "nat \<Rightarrow> string + string"
  measureRect :: "nat \<Rightarrow> string + DOMRect"

definition handleMessage :: "Page \<Rightarrow> Message \<Rightarrow> Page" where
  "handleMessage p msg =
     (case msg of
        RESET_SCROLL sel \<Rightarrow> resetElementScroll p
      | SCROLL_TO_POSITION sel y \<Rightarrow> scrollElementToPosition p y)"

definition sendMessage :: "TabHost \<Rightarrow> Tab \<Rightarrow> Message \<Rightarrow> string + Tab" where
  "sendMessage host tab msg =
     (if deliver host (length (delivered tab)) then
        Inr \<lparr> page = handleMessage (page tab) msg, delivered = delivered tab @ [msg] \<rparr>
      else Inl ''Could not establish connection. Receiving end does not exist.'')"

definition captureFullPage :: "TabHost \<Rightarrow> nat \<Rightarrow> string + string" where
  "captureFullPage host i =
     (case captureVisibleTab host i of
        Inl msg \<Rightarrow> Inl (''Screenshot capture failed: '' @ msg)
      | Inr url \<Rightarrow>
          if url = [] then Inl (''Screenshot capture failed: '' @ ''Failed to capture screenshot'')
          else Inr url)"

definition getElementRectAfterScroll :: "TabHost \<Rightarrow> nat \<Rightarrow> string + DOMRect" where
  "getElementRectAfterScroll host i = measureRect host i"

text \<open>
  The \<open>for\<close> loop over the planned offsets. A failure ends the run with the thrown message
  and the tab as the failing step left it.
\<close>

fun captureLoop ::
  "TabHost \<Rightarrow> string \<Rightarrow> ScrollPosition list \<Rightarrow> nat \<Rightarrow> LongScreenshotSegment list \<Rightarrow> Tab
     \<Rightarrow> (string + LongScreenshotSegment list) \<times> Tab" where
  "captureLoop host sel [] i segments tab = (Inr segments, tab)"
| "captureLoop host sel (scrollPos # rest) i segments tab =
     (case sendMessage host tab (SCROLL_TO_POSITION sel (sp_y scrollPos)) of
        Inl err \<Rightarrow> (Inl err, tab)
      | Inr tab1 \<Rightarrow>
          (case captureFullPage host i of
             Inl err \<Rightarrow> (Inl err, tab1)
           | Inr screenshotDataUrl \<Rightarrow>
               (case getElementRectAfterScroll host i of
                  Inl err \<Rightarrow> (Inl err, tab1)
                | Inr currentElementRect \<Rightarrow>
                    captureLoop host sel rest (i + 1)
                      (segments @ [\<lparr> dataUrl = screenshotDataUrl, scrollPosition = scrollPos,
                                      segmentIndex = i, elementRect = currentElementRect \<rparr>])
                      tab1)))"

record CaptureResult =
  cr_segments :: "LongScreenshotSegment list"
  cr_totalHeight :: number

definition captureLongScreenshot ::
  "TabHost \<Rightarrow> ElementInfo \<Rightarrow> Tab \<Rightarrow> (string + CaptureResult) \<times> Tab" where
  "captureLongScreenshot host elementInfo tab =
     (let scrollSegments = calculateScrollSegments elementInfo
      in case sendMessage host tab (RESET_SCROLL (selector elementInfo)) of
           Inl err \<Rightarrow> (Inl (''Long screenshot capture failed: '' @ err), tab)
         | Inr tab1 \<Rightarrow>
             (case captureLoop host (selector elementInfo) scrollSegments 0 [] tab1 of
                (Inl err, tab2) \<Rightarrow> (Inl (''Long screenshot capture failed: '' @ err), tab2)
              | (Inr segments, tab2) \<Rightarrow>
                  (case sendMessage host tab2 (RESET_SCROLL (selector elementInfo)) of
                     Inl err \<Rightarrow> (Inl (''Long screenshot capture failed: '' @ err), tab2)
                   | Inr tab3 \<Rightarrow>
                       (Inr \<lparr> cr_segments = segments,
                               cr_totalHeight = totalHeight elementInfo \<rparr>, tab3))))"

text \<open>The messages of a complete run, without the closing reset.\<close>

definition plannedMessages :: "ElementInfo \<Rightarrow> Message list" where
  "plannedMessages elementInfo =
     RESET_SCROLL (selector elementInfo) #
     map (\<lambda>p. SCROLL_TO_POSITION (selector elementInfo) (sp_y p))
         (calculateScrollSegments elementInfo)"

subsection \<open>Example runs\<close>

definition measuredRect :: DOMRect where
  "measuredRect = \<lparr> rect_x = 0, rect_y = 0, rect_width = 800, rect_height = 600,
                     rect_top = 0, rect_right = 800, rect_bottom = 600, rect_left = 0 \<rparr>"

text \<open>A tab where everything works, and one whose second capture is rejected.\<close>

definition reliableTab :: TabHost where
  "reliableTab =
     \<lparr> deliver = (\<lambda>n. True),
       captureVisibleTab = (\<lambda>i. Inr ''data:image/png;base64,segment''),
       measureRect = (\<lambda>i. Inr measuredRect) \<rparr>"

definition secondCaptureFails :: TabHost where
  "secondCaptureFails =
     \<lparr> deliver = (\<lambda>n. True),
       captureVisibleTab = (\<lambda>i. if i = 1 then Inl ''The tab was closed''
                                 else Inr ''data:image/png;base64,segment''),
       measureRect = (\<lambda>i. Inr measuredRect) \<rparr>"

definition freshTab :: Tab where
  "freshTab = \<lparr> page = \<lparr> elementPresent = True, scrollTop = 0, scrollLeft = 0,
                           maxScrollTop = 1200 \<rparr>,
                delivered = [] \<rparr>"

section \<open>Shadow bounds in the content script\<close>

text \<open>
  The string operations used by \<open>parseShadowExtent\<close>, on 8-bit characters:
  \<open>split(',')\<close>, \<open>trim()\<close> and \<open>split(/\s+/)\<close>. The white space of \<open>trim\<close> and of
  \<open>\s\<close> among these characters is the space, the control characters from tab to
  carriage return, and the no-break space U+00A0.
\<close>

fun splitOn :: "char \<Rightarrow> string \<Rightarrow> string list" where
  "splitOn sep [] = [[]]"
| "splitOn sep (c # cs) =
     (if c = sep then [] # splitOn sep cs
      else (case splitOn sep cs of
              w # ws \<Rightarrow> (c # w) # ws
            | [] \<Rightarrow> [[c]]))"

definition isSpace :: "char \<Rightarrow> bool" where
  "isSpace c = (c = CHR '' '' \<or> c = CHR 0x09 \<or> c = CHR 0x0A \<or> c = CHR 0x0B
                \<or> c = CHR 0x0C \<or> c = CHR 0x0D \<or> c = CHR 0xA0)"

definition trim :: "string \<Rightarrow> string" where
  "trim s = rev (dropWhile isSpace (rev (dropWhile isSpace s)))"

fun splitSpaces :: "string \<Rightarrow> string list" where
  "splitSpaces [] = [[]]"
| "splitSpaces (c # cs) =
     (if isSpace c then
        (if cs \<noteq> [] \<and> isSpace (hd cs) then splitSpaces cs else [] # splitSpaces cs)
      else (case splitSpaces cs of
              w # ws \<Rightarrow> (c # w) # ws
            | [] \<Rightarrow> [[c]]))"

text \<open>
  \<open>parseFloat\<close> is a built-in of the language and a parameter here: a function from
  strings to numbers, \<open>None\<close> standing for \<open>NaN\<close>. \<open>parseFloat(values[k]) || 0\<close> reads
  the \<open>k\<close>-th token, and is 0 when the token is missing or not a number.
\<close>

definition tokenOr0 :: "(string \<Rightarrow> number option) \<Rightarrow> string list \<Rightarrow> nat \<Rightarrow> number" where
  "tokenOr0 parseFloat vals k =
     (if k < length vals then (case parseFloat (vals ! k) of None \<Rightarrow> 0 | Some v \<Rightarrow> v) else 0)"

text \<open>The extent computed for one shadow from its tokens.\<close>

definition shadowExtent :: "(string \<Rightarrow> number option) \<Rightarrow> string list \<Rightarrow> number" where
  "shadowExtent parseFloat vals =
     (let offsetX = \<bar>tokenOr0 parseFloat vals 0\<bar>;
          offsetY = \<bar>tokenOr0 parseFloat vals 1\<bar>;
          blurRadius = \<bar>tokenOr0 parseFloat vals 2\<bar>;
          spreadRadius = \<bar>tokenOr0 parseFloat vals 3\<bar>
      in max offsetX offsetY + blurRadius + spreadRadius)"

text \<open>
  \<open>parseShadowExtent\<close>: the loop over the comma-separated shadows, with \<open>maxExtent\<close> as
  accumulator. None of the operations in its \<open>try\<close> block throws on a string, so the
  \<open>catch\<close> branch (extent 10) is not reached.
\<close>

fun shadowLoop :: "(string \<Rightarrow> number option) \<Rightarrow> string list \<Rightarrow> number \<Rightarrow> number" where
  "shadowLoop parseFloat [] maxExtent = maxExtent"
| "shadowLoop parseFloat (shadow # rest) maxExtent =
     (let vals = splitSpaces (trim shadow)
      in if length vals \<ge> 2 then
           shadowLoop parseFloat rest (max maxExtent (shadowExtent parseFloat vals))
         else shadowLoop parseFloat rest maxExtent)"

definition parseShadowExtent :: "(string \<Rightarrow> number option) \<Rightarrow> string \<Rightarrow> number" where
  "parseShadowExtent parseFloat shadowValue =
     shadowLoop parseFloat (splitOn (CHR '','') shadowValue) 0"

definition calculateShadowBounds ::
  "(string \<Rightarrow> number option) \<Rightarrow> Window \<Rightarrow> DOMRect \<Rightarrow> string \<Rightarrow> string \<Rightarrow> ShadowInfo" where
  "calculateShadowBounds parseFloat w rect boxShadowValue textShadowValue =
     (let sx = orElse (scrollX w) (docScrollLeft w);
          sy = orElse (scrollY w) (docScrollTop w);
          m0 = 0;
          m1 = (if boxShadowValue \<noteq> [] \<and> boxShadowValue \<noteq> ''none''
                then max m0 (parseShadowExtent parseFloat boxShadowValue) else m0);
          maxShadowExtent =
               (if textShadowValue \<noteq> [] \<and> textShadowValue \<noteq> ''none''
                then max m1 (parseShadowExtent parseFloat textShadowValue) else m1)
      in \<lparr> boxShadow = boxShadowValue,
           textShadow = textShadowValue,
           shadowBounds =
             \<lparr> rect_x = rect_left rect + sx - maxShadowExtent,
               rect_y = rect_top rect + sy - maxShadowExtent,
               rect_width = rect_width rect + (maxShadowExtent * 2),
               rect_height = rect_height rect + (maxShadowExtent * 2),
               rect_top = rect_top rect + sy - maxShadowExtent,
               rect_right = rect_right rect + sx + maxShadowExtent,
               rect_bottom = rect_bottom rect + sy + maxShadowExtent,
               rect_left = rect_left rect + sx - maxShadowExtent \<rparr> \<rparr>)"

subsection \<open>The loop in closed form\<close>

text \<open>
  The token lists that the loop of \<open>parseShadowExtent\<close> does not skip: those of the
  comma-separated pieces of the style value that have at least two tokens.
\<close>

definition shadowsOf :: "string \<Rightarrow> string list list" where
  "shadowsOf shadowValue =
     filter (\<lambda>vals. length vals \<ge> 2) (map (\<lambda>shadow. splitSpaces (trim shadow))
                                             (splitOn (CHR '','') shadowValue))"

text \<open>The largest extent that the loops compute over both style values, 0 when no piece
  is read.\<close>

definition maxExtentOf :: "(string \<Rightarrow> number option) \<Rightarrow> string \<Rightarrow> string \<Rightarrow> number" where
  "maxExtentOf parseFloat boxShadowValue textShadowValue =
     Max (set (0 # map (shadowExtent parseFloat)
                       (shadowsOf boxShadowValue @ shadowsOf textShadowValue)))"

text \<open>The element's box in page coordinates, and a box grown by \<open>m\<close> on all four sides.\<close>

definition pageBox :: "Window \<Rightarrow> DOMRect \<Rightarrow> DOMRect" where
  "pageBox w rect =
     \<lparr> rect_x = rect_left rect + orElse (scrollX w) (docScrollLeft w),
       rect_y = rect_top rect + orElse (scrollY w) (docScrollTop w),
       rect_width = rect_width rect,
       rect_height = rect_height rect,
       rect_top = rect_top rect + orElse (scrollY w) (docScrollTop w),
       rect_right = rect_right rect + orElse (scrollX w) (docScrollLeft w),
       rect_bottom = rect_bottom rect + orElse (scrollY w) (docScrollTop w),
       rect_left = rect_left rect + orElse (scrollX w) (docScrollLeft w) \<rparr>"

definition expandBox :: "DOMRect \<Rightarrow> number \<Rightarrow> DOMRect" where
  "expandBox b m =
     \<lparr> rect_x = rect_x b - m, rect_y = rect_y b - m,
       rect_width = rect_width b + 2 * m, rect_height = rect_height b + 2 * m,
       rect_top = rect_top b - m, rect_right = rect_right b + m,
       rect_bottom = rect_bottom b + m, rect_left = rect_left b - m \<rparr>"

subsection \<open>An example\<close>

text \<open>
  A reading of decimal numbers for the examples: optional sign, digits, optional fraction,
  the rest of the token ignored, as \<open>parseFloat\<close> does on such tokens (exponents and
  \<open>Infinity\<close> are not covered).
\<close>

definition digitValue :: "char \<Rightarrow> nat option" where
  "digitValue c = map_of (zip ''0123456789'' [0, 1, 2, 3, 4, 5, 6, 7, 8, 9]) c"

fun readDigits :: "string \<Rightarrow> nat list \<times> string" where
  "readDigits [] = ([], [])"
| "readDigits (c # cs) =
     (case digitValue c of
        None \<Rightarrow> ([], c # cs)
      | Some d \<Rightarrow> (case readDigits cs of (ds, rest) \<Rightarrow> (d # ds, rest)))"

definition digitsValue :: "nat list \<Rightarrow> number" where
  "digitsValue ds = of_nat (foldl (\<lambda>a d. 10 * a + d) 0 ds)"

definition parseDecimal :: "string \<Rightarrow> number option" where
  "parseDecimal s =
     (let s1 = dropWhile isSpace s;
          negative = (s1 \<noteq> [] \<and> hd s1 = CHR ''-'');
          s2 = (if s1 \<noteq> [] \<and> (hd s1 = CHR ''-'' \<or> hd s1 = CHR ''+'') then tl s1 else s1);
          intPart = readDigits s2;
          fracPart = (if snd intPart \<noteq> [] \<and> hd (snd intPart) = CHR ''.''
                      then fst (readDigits (tl (snd intPart))) else []);
          magnitude = digitsValue (fst intPart) + digitsValue fracPart / 10 ^ length fracPart
      in if fst intPart = [] \<and> fracPart = [] then None
         else Some (if negative then - magnitude else magnitude))"

text \<open>The extent of one shadow as the specification words it, from the shadow's offsets
  and radii.\<close>

definition specShadowExtent :: "number \<Rightarrow> number \<Rightarrow> number \<Rightarrow> number \<Rightarrow> number" where
  "specShadowExtent offsetX offsetY blurRadius spreadRadius =
     max \<bar>offsetX\<bar> \<bar>offsetY\<bar> + blurRadius + spreadRadius"

text \<open>
  The element of the repository's shadow test, and one shadow (offsets 5 and 5, blur 10,
  spread 0, colour \<open>rgb(10, 20, 30)\<close>) written in two ways: as the computed style value
  of Chrome serialises it, colour first, and in the order of the comment in
  \<open>parseShadowExtent\<close> and of the repository's tests, colour last.
\<close>

definition colourFirstShadow :: string where
  "colourFirstShadow = ''rgb(10, 20, 30) 5px 5px 10px 0px''"

definition colourLastShadow :: string where
  "colourLastShadow = ''5px 5px 10px 0px rgb(10, 20, 30)''"

definition shadowRect :: DOMRect where
  "shadowRect = \<lparr> rect_x = 100, rect_y = 100, rect_width = 200, rect_height = 100,
                   rect_top = 100, rect_right = 300, rect_bottom = 200, rect_left = 100 \<rparr>"

definition unscrolledWindow :: Window where
  "unscrolledWindow = \<lparr> innerHeight = 768, scrollX = 0, scrollY = 0,
                         docScrollLeft = 0, docScrollTop = 0 \<rparr>"
section \<open>Properties of the rounding to double precision\<close>

lemma roundHalfEven_of_int [simp]: "roundHalfEven (of_int n) = n"
  by (simp add: roundHalfEven_def)

lemma roundHalfEven_bounds: "\<lfloor>q\<rfloor> \<le> roundHalfEven q" "roundHalfEven q \<le> \<lfloor>q\<rfloor> + 1"
  by (simp_all add: roundHalfEven_def Let_def)

lemma roundHalfEven_le_int: "q \<le> of_int m \<Longrightarrow> roundHalfEven q \<le> m"
proof (cases "q = of_int m")
  case True
  then show ?thesis by simp
next
  case False
  assume "q \<le> of_int m"
  with False have "q < of_int m" by simp
  then have "\<lfloor>q\<rfloor> < m" by (simp add: floor_less_iff)
  then show ?thesis using roundHalfEven_bounds(2)[of q] by linarith
qed

lemma roundHalfEven_ge_int: "of_int m \<le> q \<Longrightarrow> m \<le> roundHalfEven q"
proof -
  assume "of_int m \<le> q"
  then have "m \<le> \<lfloor>q\<rfloor>" by (simp add: le_floor_iff)
  then show ?thesis using roundHalfEven_bounds(1)[of q] by linarith
qed




lemma bitlen_le_natI: "x < 2 ^ w \<Longrightarrow> bitlen x \<le> int w"
  using bitlen_le_iff_power[of x "int w"] by simp

lemma bitlen_le_natD: "bitlen x \<le> int w \<Longrightarrow> x < 2 ^ w"
  using bitlen_le_iff_power[of x "int w"] by simp

lemma bitlen_ge_nat_iff: "int (Suc w) \<le> bitlen x \<longleftrightarrow> 2 ^ w \<le> x"
  unfolding bitlen_ge_iff_power by (simp del: of_nat_Suc)

lemma bitlen_ge_natI: "2 ^ w \<le> x \<Longrightarrow> int (Suc w) \<le> bitlen x"
  by (simp only: bitlen_ge_nat_iff)


text \<open>The exponent chosen for a scaled value: the value lies below the top of its binade,
  and above its bottom unless the exponent is the smallest one.\<close>

lemma binade_upper:
  fixes y :: rat
  shows "y < 2 ^ (nat (bitlen \<lfloor>y\<rfloor> - 53) + 53)"
proof -
  define k where "k = nat (bitlen \<lfloor>y\<rfloor> - 53)"
  have "bitlen \<lfloor>y\<rfloor> \<le> int (k + 53)" unfolding k_def by linarith
  then have "\<lfloor>y\<rfloor> < 2 ^ (k + 53)" by (rule bitlen_le_natD)
  then have "\<lfloor>y\<rfloor> + 1 \<le> 2 ^ (k + 53)" by simp
  then have "(of_int (\<lfloor>y\<rfloor> + 1) :: rat) \<le> of_int (2 ^ (k + 53))"
    by (simp only: of_int_le_iff)
  moreover have "y < of_int (\<lfloor>y\<rfloor> + 1)" by linarith
  ultimately have "y < 2 ^ (k + 53)" by simp
  then show ?thesis unfolding k_def .
qed


lemma significand_le:
  fixes y :: rat
  shows "roundHalfEven (y / 2 ^ nat (bitlen \<lfloor>y\<rfloor> - 53)) \<le> 2 ^ 53"
proof -
  define k where "k = nat (bitlen \<lfloor>y\<rfloor> - 53)"
  have "y < 2 ^ (k + 53)" using binade_upper[of y] unfolding k_def .
  then have "y / 2 ^ k \<le> 2 ^ 53" by (simp add: divide_le_eq power_add)
  then have "y / 2 ^ k \<le> of_int (2 ^ 53)" by simp
  then have "roundHalfEven (y / 2 ^ k) \<le> 2 ^ 53" by (rule roundHalfEven_le_int)
  then show ?thesis unfolding k_def .
qed


lemma roundScaled_zero [simp]: "roundScaled 0 = 0"
  using roundHalfEven_of_int[of 0] by (simp add: roundScaled_def)

lemma roundScaled_nonneg: "0 \<le> x \<Longrightarrow> 0 \<le> roundScaled x"
proof -
  assume "0 \<le> x"
  define y where "y = x * 2 ^ minExponent"
  define k where "k = nat (bitlen \<lfloor>y\<rfloor> - 53)"
  have "(of_int 0 :: rat) \<le> y / 2 ^ k" using \<open>0 \<le> x\<close> by (simp add: y_def)
  then have "0 \<le> roundHalfEven (y / 2 ^ k)" by (rule roundHalfEven_ge_int)
  then show ?thesis by (simp add: roundScaled_def Let_def y_def k_def)
qed


text \<open>A scaled integer with at most 53 significant bits is kept by the rounding.\<close>

lemma roundScaled_representable:
  assumes "2 ^ nat (bitlen z - 53) dvd z"
  shows "roundScaled (of_int z / 2 ^ minExponent) = of_int z / 2 ^ minExponent"
proof -
  define k where "k = nat (bitlen z - 53)"
  from assms obtain c where c: "z = 2 ^ k * c" unfolding k_def by (auto elim: dvdE)
  have "(of_int z :: rat) / 2 ^ k = of_int c" by (simp add: c)
  then have "roundHalfEven (of_int z / 2 ^ k) = c" by simp
  then have "of_int (roundHalfEven (of_int z / 2 ^ k)) * 2 ^ k = (of_int z :: rat)"
    by (simp add: c)
  then show ?thesis by (simp add: roundScaled_def Let_def k_def)
qed

lemma significand_dvd:
  assumes "0 \<le> n" and "n \<le> 2 ^ 53"
  shows "2 ^ nat (bitlen (n * 2 ^ k) - 53) dvd n * 2 ^ k"
proof (cases "n = 2 ^ 53")
  case True
  have "n * 2 ^ k < 2 ^ (54 + k)" using True by (simp add: power_add)
  then have "bitlen (n * 2 ^ k) \<le> int (54 + k)" by (rule bitlen_le_natI)
  then have "nat (bitlen (n * 2 ^ k) - 53) \<le> 53 + k" by linarith
  then have "(2::int) ^ nat (bitlen (n * 2 ^ k) - 53) dvd 2 ^ (53 + k)"
    by (rule le_imp_power_dvd)
  then show ?thesis using True by (simp add: power_add)
next
  case False
  then have "n < 2 ^ 53" using assms(2) by simp
  then have "n * 2 ^ k < 2 ^ 53 * 2 ^ k" by simp
  then have "n * 2 ^ k < 2 ^ (53 + k)" by (simp add: power_add)
  then have "bitlen (n * 2 ^ k) \<le> int (53 + k)" by (rule bitlen_le_natI)
  then have "nat (bitlen (n * 2 ^ k) - 53) \<le> k" by linarith
  then have "(2::int) ^ nat (bitlen (n * 2 ^ k) - 53) dvd 2 ^ k"
    by (rule le_imp_power_dvd)
  then show ?thesis by (rule dvd_mult)
qed

lemma roundScaled_idem:
  assumes "0 \<le> x"
  shows "roundScaled (roundScaled x) = roundScaled x"
proof -
  define y where "y = x * 2 ^ minExponent"
  define k where "k = nat (bitlen \<lfloor>y\<rfloor> - 53)"
  define n where "n = roundHalfEven (y / 2 ^ k)"
  have "(of_int 0 :: rat) \<le> y / 2 ^ k" using assms by (simp add: y_def)
  then have n0: "0 \<le> n" unfolding n_def by (rule roundHalfEven_ge_int)
  have n1: "n \<le> 2 ^ 53" unfolding n_def k_def by (rule significand_le)
  have r: "roundScaled x = of_int (n * 2 ^ k) / 2 ^ minExponent"
    by (simp add: roundScaled_def Let_def y_def k_def n_def)
  show ?thesis
    unfolding r by (rule roundScaled_representable) (rule significand_dvd[OF n0 n1])
qed

text \<open>Evaluation: a value whose binade is known is rounded at that binade.\<close>

lemma roundScaled_at:
  assumes lo: "2 ^ (52 + p) \<le> x * 2 ^ q" and hi: "x * 2 ^ q < 2 ^ (53 + p)"
      and q: "q \<le> minExponent + p"
  shows "roundScaled x = of_int (roundHalfEven (x * 2 ^ q / 2 ^ p)) * 2 ^ p / 2 ^ q"
proof -
  define d where "d = minExponent + p - q"
  define y where "y = x * 2 ^ minExponent"
  have dq: "d + q = minExponent + p" using q by (simp add: d_def)
  have pw: "(2::rat) ^ minExponent * 2 ^ p = 2 ^ q * 2 ^ d"
  proof -
    have "(2::rat) ^ minExponent * 2 ^ p = 2 ^ (minExponent + p)" by (simp only: power_add)
    also have "\<dots> = 2 ^ (d + q)" by (simp only: dq)
    also have "\<dots> = 2 ^ q * 2 ^ d" by (simp only: power_add mult.commute)
    finally show ?thesis .
  qed
  have yq: "y * 2 ^ p = x * 2 ^ q * 2 ^ d"
    unfolding y_def using pw by (simp only: mult.assoc)
  have ylo: "2 ^ (52 + d) \<le> y"
  proof -
    have "2 ^ (52 + p) * 2 ^ d \<le> x * 2 ^ q * (2 ^ d :: rat)"
      using lo by (simp only: mult_right_mono zero_le_power zero_le_numeral)
    then have "2 ^ (52 + d) * 2 ^ p \<le> y * (2 ^ p :: rat)"
      unfolding yq by (simp only: power_add mult_ac)
    then show ?thesis by simp
  qed
  have yhi: "y < 2 ^ (53 + d)"
  proof -
    have "x * 2 ^ q * (2 ^ d :: rat) < 2 ^ (53 + p) * 2 ^ d"
      using hi by (simp only: mult_strict_right_mono zero_less_power zero_less_numeral)
    then have "y * (2 ^ p :: rat) < 2 ^ (53 + d) * 2 ^ p"
      unfolding yq by (simp only: power_add mult_ac)
    then show ?thesis by simp
  qed
  have "(of_int (2 ^ (52 + d)) :: rat) \<le> y" using ylo by simp
  then have flo: "2 ^ (52 + d) \<le> \<lfloor>y\<rfloor>" by (simp only: le_floor_iff)
  have "y < (of_int (2 ^ (53 + d)) :: rat)" using yhi by simp
  then have fhi: "\<lfloor>y\<rfloor> < 2 ^ (53 + d)" by (simp only: floor_less_iff)
  have "bitlen \<lfloor>y\<rfloor> = int (53 + d)"
  proof (rule antisym)
    show "bitlen \<lfloor>y\<rfloor> \<le> int (53 + d)" using fhi by (rule bitlen_le_natI)
    show "int (53 + d) \<le> bitlen \<lfloor>y\<rfloor>" using bitlen_ge_natI[OF flo] by simp
  qed
  then have k: "nat (bitlen \<lfloor>y\<rfloor> - 53) = d" by simp
  have q1: "y / 2 ^ d = x * 2 ^ q / 2 ^ p"
    using yq by (simp add: field_simps)
  have q2: "(2::rat) ^ d / 2 ^ minExponent = 2 ^ p / 2 ^ q"
    using pw by (simp add: field_simps)
  have "roundScaled x = of_int (roundHalfEven (x * 2 ^ q / 2 ^ p)) * (2 ^ d / 2 ^ minExponent)"
    using k q1 by (simp add: roundScaled_def Let_def y_def)
  then show ?thesis by (simp only: q2 times_divide_eq_right)
qed

lemma roundScaled_exact:
  assumes "0 \<le> n" and "n \<le> 2 ^ 53" and "q \<le> minExponent + p"
  shows "roundScaled (of_int n * 2 ^ p / 2 ^ q) = of_int n * 2 ^ p / 2 ^ q"
proof -
  define d where "d = minExponent + p - q"
  have dq: "d + q = minExponent + p" using assms(3) by (simp add: d_def)
  have pw: "(2::rat) ^ minExponent * 2 ^ p = 2 ^ q * 2 ^ d"
  proof -
    have "(2::rat) ^ minExponent * 2 ^ p = 2 ^ (minExponent + p)" by (simp only: power_add)
    also have "\<dots> = 2 ^ (d + q)" by (simp only: dq)
    also have "\<dots> = 2 ^ q * 2 ^ d" by (simp only: power_add mult.commute)
    finally show ?thesis .
  qed
  have e: "(of_int n :: rat) * 2 ^ p / 2 ^ q = of_int (n * 2 ^ d) / 2 ^ minExponent"
    using pw by (simp add: field_simps)
  show ?thesis
    unfolding e by (rule roundScaled_representable) (rule significand_dvd[OF assms(1,2)])
qed

text \<open>Rounding of either sign: it is monotone and keeps every double.\<close>

lemma roundDouble_zero [simp]: "roundDouble 0 = 0"
  by (simp add: roundDouble_def)

lemma roundDouble_nonneg: "0 \<le> x \<Longrightarrow> 0 \<le> roundDouble x"
  by (simp add: roundDouble_def roundScaled_nonneg)


lemma roundDouble_idem [simp]: "roundDouble (roundDouble x) = roundDouble x"
proof (cases "x < 0")
  case False
  then have "0 \<le> roundScaled x" by (simp add: roundScaled_nonneg)
  then show ?thesis using False by (simp add: roundDouble_def roundScaled_idem)
next
  case True
  then have nn: "0 \<le> roundScaled (- x)" by (simp add: roundScaled_nonneg)
  show ?thesis
  proof (cases "roundScaled (- x) = 0")
    case True
    then show ?thesis using \<open>x < 0\<close> by (simp add: roundDouble_def)
  next
    case False
    then have "0 < roundScaled (- x)" using nn by simp
    then show ?thesis using True by (simp add: roundDouble_def roundScaled_idem)
  qed
qed

lemma roundDouble_of_int:
  assumes "\<bar>n\<bar> \<le> 2 ^ 53"
  shows "roundDouble (of_int n) = of_int n"
proof -
  have e: "roundScaled (of_int m) = of_int m" if "0 \<le> m" "m \<le> 2 ^ 53" for m
    using roundScaled_exact[of m 0 0, OF that] by simp
  show ?thesis
  proof (cases "n < 0")
    case False
    then show ?thesis using assms e[of n] by (simp add: roundDouble_def)
  next
    case True
    then show ?thesis using assms e[of "- n"] by (simp add: roundDouble_def)
  qed
qed

lemma roundDouble_numeral: "numeral k \<le> (2 ^ 53 :: int) \<Longrightarrow> roundDouble (numeral k) = numeral k"
  using roundDouble_of_int[of "numeral k"] by simp

lemma roundHalfEven_divide:
  assumes "0 < b"
  shows "roundHalfEven (of_int a / of_int b) =
           (if 2 * (a mod b) < b then a div b
            else if b < 2 * (a mod b) then a div b + 1
            else if even (a div b) then a div b else a div b + 1)"
proof -
  have f: "\<lfloor>(of_int a :: rat) / of_int b\<rfloor> = a div b" by (rule floor_divide_of_int_eq)
  have "(of_int (a div b * b + a mod b) :: rat) = of_int (a div b) * of_int b + of_int (a mod b)"
    by (simp only: of_int_add of_int_mult)
  then have e: "(of_int a :: rat) = of_int (a div b) * of_int b + of_int (a mod b)"
    by (simp only: div_mult_mod_eq)
  have "(of_int (a div b) * of_int b + of_int (a mod b)) / (of_int b :: rat)
          = of_int (a div b) + of_int (a mod b) / of_int b"
    using assms by (simp add: add_divide_distrib)
  then have "(of_int a :: rat) / of_int b = of_int (a div b) + of_int (a mod b) / of_int b"
    by (simp only: e [symmetric])
  then have d: "(of_int a :: rat) / of_int b - of_int (a div b) = of_int (a mod b) / of_int b"
    by simp
  have lt: "(of_int (a mod b) / of_int b < (1/2 :: rat)) \<longleftrightarrow> 2 * (a mod b) < b"
  proof -
    have "(of_int (a mod b) / of_int b < (1/2 :: rat)) \<longleftrightarrow> (of_int (2 * (a mod b)) :: rat) < of_int b"
      using assms by (simp add: field_simps)
    then show ?thesis by (simp only: of_int_less_iff)
  qed
  have gt: "((1/2 :: rat) < of_int (a mod b) / of_int b) \<longleftrightarrow> b < 2 * (a mod b)"
  proof -
    have "((1/2 :: rat) < of_int (a mod b) / of_int b) \<longleftrightarrow> (of_int b :: rat) < of_int (2 * (a mod b))"
      using assms by (simp add: field_simps)
    then show ?thesis by (simp only: of_int_less_iff)
  qed
  show ?thesis
    unfolding roundHalfEven_def Let_def f d lt gt ..
qed

lemma fadd_double [simp]: "roundDouble (fadd a b) = fadd a b"
  by (simp add: fadd_def)


text \<open>The constants and the sums of the examples. \<open>0.8\<close> is
  \<open>3602879701896397 / 2^52\<close>; \<open>768 * 0.8\<close> is \<open>614.4000000000001\<close>, one unit
  in the last place above \<open>3072/5\<close>.\<close>

lemma double_08: "roundDouble (4/5) = 3602879701896397 / 4503599627370496"
  using roundScaled_at[of 0 "4/5" 53] roundHalfEven_divide[of 5 "4 * 2 ^ 53"]
  by (simp add: roundDouble_def minExponent_def)

lemma step_600: "fmul 600 (roundDouble (4/5)) = 480"
  unfolding double_08
  using roundScaled_at[of 0 "600 * (3602879701896397 / 4503599627370496)" 44]
    roundHalfEven_divide[of "2 ^ 8" "600 * 3602879701896397"]
  by (simp add: fmul_def roundDouble_def minExponent_def)

lemma step_100: "fmul 100 (roundDouble (4/5)) = 80"
  unfolding double_08
  using roundScaled_at[of 0 "100 * (3602879701896397 / 4503599627370496)" 46]
    roundHalfEven_divide[of "2 ^ 6" "100 * 3602879701896397"]
  by (simp add: fmul_def roundDouble_def minExponent_def)

lemma step_768: "fmul 768 (roundDouble (4/5)) = 1351079888211149 / 2199023255552"
  unfolding double_08
  using roundScaled_at[of 0 "768 * (3602879701896397 / 4503599627370496)" 43]
    roundHalfEven_divide[of "2 ^ 9" "768 * 3602879701896397"]
  by (simp add: fmul_def roundDouble_def minExponent_def)

lemma sum_768_1:
  "fadd 0 (1351079888211149 / 2199023255552) = 1351079888211149 / 2199023255552"
  using roundScaled_exact[of 1351079888211149 41 0]
  by (simp add: fadd_def roundDouble_def minExponent_def)

lemma sum_768_2:
  "fadd (1351079888211149 / 2199023255552) (1351079888211149 / 2199023255552)
     = 1351079888211149 / 1099511627776"
  using roundScaled_exact[of 1351079888211149 40 0]
  by (simp add: fadd_def roundDouble_def minExponent_def)

lemma sum_768_3:
  "fadd (1351079888211149 / 1099511627776) (1351079888211149 / 2199023255552)
     = 4053239664633447 / 2199023255552"
  using roundScaled_exact[of 4053239664633447 41 0]
  by (simp add: fadd_def roundDouble_def minExponent_def)

lemma sum_768_4:
  "fadd (4053239664633447 / 2199023255552) (1351079888211149 / 2199023255552)
     = 1351079888211149 / 549755813888"
  using roundScaled_exact[of 1351079888211149 39 0]
  by (simp add: fadd_def roundDouble_def minExponent_def)

lemma sum_768_5:
  "fadd (1351079888211149 / 549755813888) (1351079888211149 / 2199023255552)
     = 6755399441055745 / 2199023255552"
  using roundScaled_exact[of 6755399441055745 41 0]
  by (simp add: fadd_def roundDouble_def minExponent_def)

section \<open>Properties of the scroll planner\<close>

lemma map_upt_shift:
  "f 0 # map (\<lambda>k. f (Suc k)) [0..<n] = map f [0..<Suc n]"
  by (simp add: map_upt_Suc del: upt_Suc)

lemma runningSum_shift: "runningSum c s (Suc k) = runningSum (fadd c s) s k"
  by (induction k) simp_all



text \<open>
  The loop appends the running sums from \<open>cur\<close> that do not exceed \<open>T\<close>: all but the last
  are below \<open>T\<close>, and unless the safety limit is reached the last one is \<open>T\<close> or its
  successor exceeds \<open>T\<close>.
\<close>

lemma scrollLoop_shape:
  "\<exists>n. scrollLoop s T segs cur = segs @ map (\<lambda>k. mkOffset T (runningSum cur s k)) [0..<n]
       \<and> (\<forall>k<n. runningSum cur s k \<le> T)
       \<and> (\<forall>k. Suc k < n \<longrightarrow> runningSum cur s k < T)
       \<and> (cur \<le> T \<longrightarrow> 0 < n)
       \<and> (cur \<le> T \<longrightarrow> length segs + n \<le> 50 \<longrightarrow>
             runningSum cur s (n - 1) = T \<or> T < runningSum cur s n)"
proof (induction s T segs cur rule: scrollLoop.induct)
  case (1 s T segs cur)
  let ?pushed = "segs @ [mkOffset T cur]"
  consider (stop) "\<not> cur \<le> T" | (final) "cur \<le> T" "T \<le> cur"
    | (cap) "cur \<le> T" "\<not> T \<le> cur" "length ?pushed > 50"
    | (rec) "cur \<le> T" "\<not> T \<le> cur" "\<not> length ?pushed > 50" by blast
  then show ?case
  proof cases
    case stop
    then have "scrollLoop s T segs cur = segs" by (subst scrollLoop.simps) simp
    then show ?thesis using stop by (intro exI[of _ 0]) simp
  next
    case final
    then have "scrollLoop s T segs cur = ?pushed"
      by (subst scrollLoop.simps) (simp add: mkOffset_def)
    then show ?thesis using final by (intro exI[of _ 1]) simp
  next
    case cap
    then have "scrollLoop s T segs cur = ?pushed"
      by (subst scrollLoop.simps) (simp add: mkOffset_def)
    then show ?thesis using cap by (intro exI[of _ 1]) simp
  next
    case rec
    then have step: "scrollLoop s T segs cur = scrollLoop s T ?pushed (fadd cur s)"
      by (subst scrollLoop.simps) (simp add: mkOffset_def Let_def)
    from "1.IH"[OF rec(1) refl] rec
    obtain n where n: "scrollLoop s T ?pushed (fadd cur s) =
          ?pushed @ map (\<lambda>k. mkOffset T (runningSum (fadd cur s) s k)) [0..<n]"
        and le: "\<forall>k<n. runningSum (fadd cur s) s k \<le> T"
        and lt: "\<forall>k. Suc k < n \<longrightarrow> runningSum (fadd cur s) s k < T"
        and pos: "fadd cur s \<le> T \<longrightarrow> 0 < n"
        and reach: "fadd cur s \<le> T \<longrightarrow> length ?pushed + n \<le> 50 \<longrightarrow>
             runningSum (fadd cur s) s (n - 1) = T \<or> T < runningSum (fadd cur s) s n"
      by (auto simp: mkOffset_def)
    have eq: "(\<lambda>k. mkOffset T (runningSum (fadd cur s) s k)) = (\<lambda>k. mkOffset T (runningSum cur s (Suc k)))"
      by (rule ext) (simp only: runningSum_shift)
    have "scrollLoop s T segs cur = segs @ map (\<lambda>k. mkOffset T (runningSum cur s k)) [0..<Suc n]"
      unfolding step n eq
      using map_upt_shift[of "\<lambda>k. mkOffset T (runningSum cur s k)" n] by simp
    moreover have "\<forall>k<Suc n. runningSum cur s k \<le> T"
    proof (intro allI impI)
      fix k assume "k < Suc n"
      show "runningSum cur s k \<le> T"
      proof (cases k)
        case 0 then show ?thesis using rec by simp
      next
        case (Suc j)
        then have "j < n" using \<open>k < Suc n\<close> by simp
        with le have "runningSum (fadd cur s) s j \<le> T" by blast
        then show ?thesis unfolding Suc by (simp only: runningSum_shift)
      qed
    qed
    moreover have "\<forall>k. Suc k < Suc n \<longrightarrow> runningSum cur s k < T"
    proof (intro allI impI)
      fix k assume "Suc k < Suc n"
      show "runningSum cur s k < T"
      proof (cases k)
        case 0 then show ?thesis using rec by simp
      next
        case (Suc j)
        then have "Suc j < n" using \<open>Suc k < Suc n\<close> by simp
        with lt have "runningSum (fadd cur s) s j < T" by blast
        then show ?thesis unfolding Suc by (simp only: runningSum_shift)
      qed
    qed
    moreover have "length segs + Suc n \<le> 50 \<longrightarrow>
        runningSum cur s (Suc n - 1) = T \<or> T < runningSum cur s (Suc n)"
    proof
      assume len: "length segs + Suc n \<le> 50"
      show "runningSum cur s (Suc n - 1) = T \<or> T < runningSum cur s (Suc n)"
      proof (cases "fadd cur s \<le> T")
        case True
        with pos obtain m where m: "n = Suc m" by (cases n) auto
        from reach True len have "runningSum (fadd cur s) s (n - 1) = T \<or> T < runningSum (fadd cur s) s n"
          by simp
        then have "runningSum cur s (Suc m) = T \<or> T < runningSum cur s (Suc n)"
          unfolding m by (simp only: runningSum_shift diff_Suc_1)
        then show ?thesis by (simp add: m)
      next
        case False
        then have "T < runningSum (fadd cur s) s 0" by simp
        moreover have "\<not> 0 < n \<Longrightarrow> n = 0" by simp
        moreover have "0 < n \<Longrightarrow> False" using le False by auto
        ultimately have "n = 0" by blast
        then show ?thesis using False by simp
      qed
    qed
    ultimately show ?thesis by (intro exI[of _ "Suc n"]) simp
  qed
qed

lemma scrollLoop_length:
  "length (scrollLoop s T segs cur) \<le> max (length segs + 1) 51"
proof (induction s T segs cur rule: scrollLoop.induct)
  case (1 s T segs cur)
  show ?case
    using "1.IH" by (subst scrollLoop.simps) (auto simp: Let_def)
qed

lemma planner_scrolling:
  "isScrollable e \<Longrightarrow> visibleHeight e < totalHeight e \<Longrightarrow>
     calculateScrollSegments e = scrollLoop (plannerStep e) (plannerExtent e) [] 0"
  by (simp add: calculateScrollSegments_def plannerStep_def plannerExtent_def Let_def)

lemma plannerExtent_nonneg: "visibleHeight e \<le> totalHeight e \<Longrightarrow> 0 \<le> plannerExtent e"
  by (simp add: plannerExtent_def fsub_def roundDouble_nonneg)


text \<open>The planner's output in the scrolling branch, in closed form.\<close>

lemma planner_closed_form:
  assumes "isScrollable e" and "visibleHeight e < totalHeight e"
  shows "\<exists>n>0. calculateScrollSegments e =
            map (\<lambda>k. mkOffset (plannerExtent e) (runningSum 0 (plannerStep e) k)) [0..<n]
          \<and> (\<forall>k<n. runningSum 0 (plannerStep e) k \<le> plannerExtent e)
          \<and> (\<forall>k. Suc k < n \<longrightarrow> runningSum 0 (plannerStep e) k < plannerExtent e)
          \<and> (n \<le> 50 \<longrightarrow> runningSum 0 (plannerStep e) (n - 1) = plannerExtent e
                          \<or> plannerExtent e < runningSum 0 (plannerStep e) n)"
proof -
  have T: "0 \<le> plannerExtent e" using assms(2) by (simp add: plannerExtent_nonneg)
  from scrollLoop_shape[of "plannerStep e" "plannerExtent e" "[]" 0]
  obtain n where "scrollLoop (plannerStep e) (plannerExtent e) [] 0 =
       map (\<lambda>k. mkOffset (plannerExtent e) (runningSum 0 (plannerStep e) k)) [0..<n]"
     and "\<forall>k<n. runningSum 0 (plannerStep e) k \<le> plannerExtent e"
     and "\<forall>k. Suc k < n \<longrightarrow> runningSum 0 (plannerStep e) k < plannerExtent e"
     and "0 \<le> plannerExtent e \<longrightarrow> 0 < n"
     and "0 \<le> plannerExtent e \<longrightarrow> n \<le> 50 \<longrightarrow>
            runningSum 0 (plannerStep e) (n - 1) = plannerExtent e
          \<or> plannerExtent e < runningSum 0 (plannerStep e) n"
    by auto
  then show ?thesis using T planner_scrolling[OF assms] by auto
qed

lemma planner_nonempty: "calculateScrollSegments e \<noteq> []"
proof (cases "isScrollable e \<and> visibleHeight e < totalHeight e")
  case True
  then obtain n where "0 < n" and "calculateScrollSegments e =
            map (\<lambda>k. mkOffset (plannerExtent e) (runningSum 0 (plannerStep e) k)) [0..<n]"
    using planner_closed_form[of e] by blast
  then show ?thesis by simp
next
  case False
  then show ?thesis by (auto simp: calculateScrollSegments_def)
qed

lemma planner_length: "length (calculateScrollSegments e) \<le> 51"
  using scrollLoop_length[of "plannerStep e" "plannerExtent e" "[]" 0]
  by (simp add: calculateScrollSegments_def plannerStep_def plannerExtent_def Let_def)

text \<open>The plans of the example geometries.\<close>

lemma extent_facts:
  "fsub 2400 600 = 1800" "fsub 1800 600 = 1200" "fsub 100000 100 = 99900" "fsub 3840 768 = 3072"
  by (simp_all add: fsub_def roundDouble_numeral)



lemma wide_plan:
  "calculateScrollSegments wideElement =
     [\<lparr>sp_x = 0, sp_y = 0, isComplete = False\<rparr>,
      \<lparr>sp_x = 0, sp_y = 1351079888211149 / 2199023255552, isComplete = False\<rparr>,
      \<lparr>sp_x = 0, sp_y = 1351079888211149 / 1099511627776, isComplete = False\<rparr>,
      \<lparr>sp_x = 0, sp_y = 4053239664633447 / 2199023255552, isComplete = False\<rparr>,
      \<lparr>sp_x = 0, sp_y = 1351079888211149 / 549755813888, isComplete = False\<rparr>]"
  by (simp add: wideElement_def plainElement_def calculateScrollSegments_def scrollLoop.simps
        step_768 extent_facts sum_768_1 sum_768_2 sum_768_3 sum_768_4 sum_768_5)

lemma huge_plan:
  "length (calculateScrollSegments hugeElement) = 51
   \<and> last (calculateScrollSegments hugeElement) = \<lparr>sp_x = 0, sp_y = 4000, isComplete = False\<rparr>"
  by (simp add: hugeElement_def plainElement_def calculateScrollSegments_def scrollLoop.simps
        step_100 extent_facts fadd_def roundDouble_numeral)

lemma example_geometry:
  "isScrollable longElement" "visibleHeight longElement = 600" "totalHeight longElement = 2400"
  "isScrollable hugeElement" "visibleHeight hugeElement = 100" "totalHeight hugeElement = 100000"
  "isScrollable wideElement" "visibleHeight wideElement = 768" "totalHeight wideElement = 3840"
  by (simp_all add: longElement_def hugeElement_def wideElement_def plainElement_def)

lemma example_steps:
  "plannerStep longElement = 480" "plannerExtent longElement = 1800"
  "plannerStep hugeElement = 80" "plannerExtent hugeElement = 99900"
  "plannerStep wideElement = 1351079888211149 / 2199023255552" "plannerExtent wideElement = 3072"
  by (simp_all add: plannerStep_def plannerExtent_def example_geometry step_600 step_100 step_768
        extent_facts)

text \<open>
  In exact arithmetic the sixth offset of the 3840/768 geometry would be
  \<open>5 * 614.4 = 3072\<close>, the scrollable extent, and would be emitted and marked final. The
  doubles give \<open>768 * 0.8 = 614.4000000000001\<close> and a fifth sum above 3072, so the plan
  has five offsets, none a multiple of \<open>3072/5\<close> but the first.
\<close>

lemma planner_rounding_example:
  "map sp_y (calculateScrollSegments wideElement) =
     [0, 1351079888211149 / 2199023255552, 1351079888211149 / 1099511627776,
      4053239664633447 / 2199023255552, 1351079888211149 / 549755813888]
   \<and> 5 * (visibleHeight wideElement * (4/5)) = totalHeight wideElement - visibleHeight wideElement
   \<and> sp_y (calculateScrollSegments wideElement ! 1) - visibleHeight wideElement * (4/5)
        = 1 / 10995116277760
   \<and> list_all (\<lambda>p. \<not> isComplete p) (calculateScrollSegments wideElement)
   \<and> plannerExtent wideElement
        < fadd (sp_y (last (calculateScrollSegments wideElement))) (plannerStep wideElement)"
  by (simp add: wide_plan example_geometry example_steps sum_768_5)




text \<open>
  C2 (as amended). For every geometry the planner returns a nonempty list whose length is
  bounded by a limit that does not depend on the geometry. In the scrolling branch the last
  emitted offset is marked final exactly when it equals \<open>totalHeight - visibleHeight\<close>,
  so an emission cut short by the safety limit ends with an offset that is not marked
  final. The difference is the planner's own, \<open>plannerExtent\<close>; it is the exact
  difference whenever that is a double.
\<close>

theorem planner_bounded:
  "(\<exists>N. \<forall>e. length (calculateScrollSegments e) \<le> N)
   \<and> (\<forall>e. calculateScrollSegments e \<noteq> [])
   \<and> (\<forall>e::ElementInfo. isScrollable e \<and> visibleHeight e < totalHeight e \<longrightarrow>
         (isComplete (last (calculateScrollSegments e))
            \<longleftrightarrow> sp_y (last (calculateScrollSegments e)) = plannerExtent e))
   \<and> (\<forall>e::ElementInfo. isScrollable e \<and> visibleHeight e < totalHeight e
           \<and> roundDouble (totalHeight e - visibleHeight e) = totalHeight e - visibleHeight e \<longrightarrow>
         (isComplete (last (calculateScrollSegments e))
            \<longleftrightarrow> sp_y (last (calculateScrollSegments e)) = totalHeight e - visibleHeight e))"
proof -
  have final: "isComplete (last (calculateScrollSegments e))
            \<longleftrightarrow> sp_y (last (calculateScrollSegments e)) = plannerExtent e"
    if a: "isScrollable e \<and> visibleHeight e < totalHeight e" for e :: ElementInfo
  proof -
    let ?T = "plannerExtent e"
    obtain n where n: "0 < n" and r: "calculateScrollSegments e =
        map (\<lambda>k. mkOffset ?T (runningSum 0 (plannerStep e) k)) [0..<n]"
        and le: "\<forall>k<n. runningSum 0 (plannerStep e) k \<le> ?T"
      using planner_closed_form[of e] a by blast
    have "last (calculateScrollSegments e) = calculateScrollSegments e ! (n - 1)"
      using n by (simp add: r last_conv_nth)
    also have "\<dots> = mkOffset ?T (runningSum 0 (plannerStep e) (n - 1))"
      using n by (simp add: r)
    finally have l: "last (calculateScrollSegments e) =
        mkOffset ?T (runningSum 0 (plannerStep e) (n - 1))" .
    have "runningSum 0 (plannerStep e) (n - 1) \<le> ?T"
      using le n by (metis diff_less zero_less_one)
    then show ?thesis
      unfolding l by (auto simp: mkOffset_def)
  qed
  have exact: "isComplete (last (calculateScrollSegments e))
            \<longleftrightarrow> sp_y (last (calculateScrollSegments e)) = totalHeight e - visibleHeight e"
    if a: "isScrollable e \<and> visibleHeight e < totalHeight e
           \<and> roundDouble (totalHeight e - visibleHeight e) = totalHeight e - visibleHeight e"
    for e :: ElementInfo
  proof -
    have "plannerExtent e = totalHeight e - visibleHeight e"
      using a by (simp add: plannerExtent_def fsub_def)
    then show ?thesis using final[of e] a by simp
  qed
  have "\<exists>N. \<forall>e. length (calculateScrollSegments e) \<le> N"
    using planner_length by blast
  moreover have "\<forall>e. calculateScrollSegments e \<noteq> []"
    using planner_nonempty by blast
  ultimately show ?thesis using final exact by blast
qed

theorem planner_bounded_witness:
  "isScrollable hugeElement \<and> visibleHeight hugeElement < totalHeight hugeElement
   \<and> plannerExtent hugeElement = 99900
   \<and> roundDouble (totalHeight hugeElement - visibleHeight hugeElement)
        = totalHeight hugeElement - visibleHeight hugeElement
   \<and> sp_y (last (calculateScrollSegments hugeElement)) = 4000
   \<and> \<not> isComplete (last (calculateScrollSegments hugeElement))"
  using planner_bounded
  by (simp add: huge_plan example_geometry example_steps roundDouble_numeral)

theorem planner_cap_counterexample:
  "length (calculateScrollSegments hugeElement) = 51
   \<and> \<not> isComplete (last (calculateScrollSegments hugeElement))"
  by (simp add: huge_plan)

text \<open>
  C10. The element info produced by \<open>getElementInfo\<close> has \<open>totalHeight \<ge> visibleHeight\<close>,
  because \<open>detectScrollableElement\<close> takes the total height as the maximum of the scroll
  height and the rendered height; the planner's extent \<open>totalHeight - visibleHeight\<close> is
  therefore never negative, as an exact difference and as the double that the planner
  computes.
\<close>

theorem analyzed_total_ge_visible:
  "si_totalHeight (detectScrollableElement w el) =
      max (el_scrollHeight el) (rect_height (el_rect el))
   \<and> si_visibleHeight (detectScrollableElement w el) \<le> si_totalHeight (detectScrollableElement w el)
   \<and> visibleHeight (getElementInfo w el sel cx) \<le> totalHeight (getElementInfo w el sel cx)
   \<and> 0 \<le> totalHeight (getElementInfo w el sel cx) - visibleHeight (getElementInfo w el sel cx)
   \<and> 0 \<le> plannerExtent (getElementInfo w el sel cx)"
  by (simp add: detectScrollableElement_def getElementInfo_def Let_def plannerExtent_nonneg)

section \<open>Properties of the error handler\<close>

lemma startsWith_prefix: "startsWith s p \<longleftrightarrow> prefix p s"
  by (induction s p rule: startsWith.induct) auto

lemma includesStr_sublist: "includesStr s sub \<longleftrightarrow> sublist sub s"
proof (induction s)
  case Nil
  show ?case by simp
next
  case (Cons c cs)
  then show ?case
    by (simp only: includesStr.simps startsWith_prefix sublist_Cons_right)
qed

text \<open>
  C6 (as amended). The classification lower-cases the message and tries the keyword groups
  in order: "element not found" or "selector" gives ElementNotFound; otherwise
  "permission", "denied" or "unauthorized" gives PermissionDenied; otherwise "download" or
  "save" gives DownloadFailed; otherwise "capture" or "screenshot" gives CaptureFailed;
  every other message gives ProcessingError. ElementNotFound and PermissionDenied are not
  retryable, the other three are.
\<close>

theorem classifyError_by_keyword:
  "classifyError m = classifyByKeyword m
   \<and> (retryable (createErrorInfo (classifyError m) None)
        \<longleftrightarrow> classifyByKeyword m \<noteq> ELEMENT_NOT_FOUND \<and> classifyByKeyword m \<noteq> PERMISSION_DENIED)"
proof -
  have eq: "classifyError m = classifyByKeyword m"
    by (simp add: classifyError_def classifyByKeyword_def containsKeyword_def
        includesStr_sublist Let_def)
  have "retryable (createErrorInfo c None) \<longleftrightarrow> c \<noteq> ELEMENT_NOT_FOUND \<and> c \<noteq> PERMISSION_DENIED" for c
    by (cases c) (simp_all add: createErrorInfo_def)
  with eq show ?thesis by simp
qed

theorem classifyError_by_keyword_witness:
  "classifyError ''Failed to SAVE the Screenshot'' = DOWNLOAD_FAILED
   \<and> retryable (createErrorInfo (classifyError ''Failed to SAVE the Screenshot'') None)"
proof -
  have "classifyByKeyword ''Failed to SAVE the Screenshot'' = DOWNLOAD_FAILED"
    by code_simp
  then show ?thesis
    using classifyError_by_keyword[of "''Failed to SAVE the Screenshot''"]
    by (simp add: createErrorInfo_def)
qed

theorem classifyError_keyword_counterexample:
  "classifyError ''Element is hidden'' = PROCESSING_ERROR
   \<and> classifyError ''Unauthorized'' = PERMISSION_DENIED"
  by code_simp





section \<open>Properties of the stitcher\<close>

text \<open>One round of the loop on a segment whose raster decodes.\<close>

lemma stitchStep_decoded:
  assumes "i < length segments"
      and "decodeImage host (dataUrl (segments ! i)) = Some img"
  shows "stitchStep host segments dpr w i (canvas, currentY) =
           Inr (canvas \<lparr> cv_ops := cv_ops canvas @
                   [DrawImage img
                      (crop_x (adjustCropArea (segmentCrop (segments ! i) dpr w)
                                 (img_width img) (img_height img)))
                      (crop_y (adjustCropArea (segmentCrop (segments ! i) dpr w)
                                 (img_width img) (img_height img))
                        + overlapWithPrevious segments i dpr)
                      (crop_width (adjustCropArea (segmentCrop (segments ! i) dpr w)
                                 (img_width img) (img_height img)))
                      (contributedHeight host segments dpr w i)
                      0 currentY w (contributedHeight host segments dpr w i)] \<rparr>,
                currentY + contributedHeight host segments dpr w i)"
  using assms
  by (simp add: stitchStep_def loadImage_def contributedHeight_def clampedCropHeight_def
      segmentCrop_def overlapWithPrevious_def calculateOverlapHeight_def Let_def)

lemma stacked_snoc:
  assumes "stacked ops" and "destY op = sum_list (map destHeight ops)"
  shows "stacked (ops @ [op])"
  unfolding stacked_def
proof (intro allI impI)
  fix k assume k: "k < length (ops @ [op])"
  show "destY ((ops @ [op]) ! k) = sum_list (map destHeight (take k (ops @ [op])))"
  proof (cases "k < length ops")
    case True
    then show ?thesis using assms(1) by (simp add: stacked_def nth_append)
  next
    case False
    then have "k = length ops" using k by simp
    then show ?thesis using assms(2) by simp
  qed
qed

text \<open>The loop over a list of indices, from a canvas whose calls are stacked up to the
  write offset.\<close>

lemma stitchLoop_decoded:
  assumes "\<forall>i\<in>set idxs. i < length segments \<and> decodeImage host (dataUrl (segments ! i)) \<noteq> None"
      and "stacked (cv_ops canvas)"
      and "currentY = sum_list (map destHeight (cv_ops canvas))"
  shows "\<exists>canvas'.
           stitchLoop host segments dpr w idxs (canvas, currentY) =
             Inr (canvas', sum_list (map destHeight (cv_ops canvas')))
         \<and> cv_width canvas' = cv_width canvas \<and> cv_height canvas' = cv_height canvas
         \<and> stacked (cv_ops canvas')
         \<and> map destHeight (cv_ops canvas') =
             map destHeight (cv_ops canvas) @ map (contributedHeight host segments dpr w) idxs"
  using assms
proof (induction idxs arbitrary: canvas currentY)
  case Nil
  then show ?case by simp
next
  case (Cons i rest)
  then obtain img where img: "decodeImage host (dataUrl (segments ! i)) = Some img"
      and i: "i < length segments"
    by auto
  let ?h = "contributedHeight host segments dpr w i"
  let ?op = "DrawImage img
                      (crop_x (adjustCropArea (segmentCrop (segments ! i) dpr w)
                                 (img_width img) (img_height img)))
                      (crop_y (adjustCropArea (segmentCrop (segments ! i) dpr w)
                                 (img_width img) (img_height img))
                        + overlapWithPrevious segments i dpr)
                      (crop_width (adjustCropArea (segmentCrop (segments ! i) dpr w)
                                 (img_width img) (img_height img)))
                      ?h 0 currentY w ?h"
  let ?c1 = "canvas \<lparr> cv_ops := cv_ops canvas @ [?op] \<rparr>"
  have step: "stitchStep host segments dpr w i (canvas, currentY) = Inr (?c1, currentY + ?h)"
    by (rule stitchStep_decoded[OF i img])
  have st1: "stacked (cv_ops ?c1)"
    using stacked_snoc[OF Cons.prems(2), of ?op] Cons.prems(3)
    by simp
  have y1: "currentY + ?h = sum_list (map destHeight (cv_ops ?c1))"
    using Cons.prems(3) by simp
  have rest: "\<forall>i\<in>set rest. i < length segments \<and> decodeImage host (dataUrl (segments ! i)) \<noteq> None"
    using Cons.prems(1) by simp
  from Cons.IH[OF rest st1 y1]
  obtain canvas' where
    "stitchLoop host segments dpr w rest (?c1, currentY + ?h) =
        Inr (canvas', sum_list (map destHeight (cv_ops canvas')))"
    "cv_width canvas' = cv_width ?c1" "cv_height canvas' = cv_height ?c1"
    "stacked (cv_ops canvas')"
    "map destHeight (cv_ops canvas') =
        map destHeight (cv_ops ?c1) @ map (contributedHeight host segments dpr w) rest"
    by blast
  then show ?case
    by (intro exI[of _ canvas']) (simp add: step)
qed

text \<open>A dimension in the range of a signed 32-bit integer is stored without its fraction.\<close>

lemma setCanvasDimension_floor:
  assumes "0 \<le> v" and "v < 2147483648"
  shows "setCanvasDimension d v = nat \<lfloor>v\<rfloor>"
proof -
  have lo: "0 \<le> \<lfloor>v\<rfloor>" using assms(1) by simp
  have "v < of_int 2147483648" using assms(2) by simp
  then have hi: "\<lfloor>v\<rfloor> < 2147483648" by (simp only: floor_less_iff)
  have "\<lfloor>v\<rfloor> mod 2 ^ 32 = \<lfloor>v\<rfloor>" using lo hi by simp
  then have "toUnsignedLong v = nat \<lfloor>v\<rfloor>"
    using assms(1) by (simp add: toUnsignedLong_def truncateNumber_def)
  moreover have "nat \<lfloor>v\<rfloor> \<le> 2147483647" using lo hi by linarith
  ultimately show ?thesis by (simp add: setCanvasDimension_def)
qed

lemma floor_quotient: "\<lfloor>(numeral a :: rat) / numeral b\<rfloor> = numeral a div numeral b"
  using floor_divide_of_int_eq[of "numeral a" "numeral b", where ?'a = rat] by simp

text \<open>The stitcher on two or more segments whose rasters decode.\<close>

lemma stitch_decoded_result:
  assumes "2 \<le> length segments" and "contextAvailable host"
      and "\<forall>s\<in>set segments. decodeImage host (dataUrl s) \<noteq> None"
  shows "\<exists>canvas.
           stitchScreenshotSegments host segments e dpr = Inr canvas
         \<and> cv_width canvas = setCanvasDimension 300 (fmul (rect_width (boundingRect e)) dpr)
         \<and> cv_height canvas = setCanvasDimension 150 (fmul (totalHeight e) dpr)
         \<and> stacked (cv_ops canvas)
         \<and> map destHeight (cv_ops canvas) =
             map (contributedHeight host segments dpr (fmul (rect_width (boundingRect e)) dpr))
                 [0..<length segments]
         \<and> sum_list (map destHeight (cv_ops canvas)) =
             (\<Sum>i<length segments.
                 contributedHeight host segments dpr (fmul (rect_width (boundingRect e)) dpr) i)"
proof -
  let ?w = "fmul (rect_width (boundingRect e)) dpr"
  let ?c0 = "\<lparr> cv_width = setCanvasDimension 300 ?w,
               cv_height = setCanvasDimension 150 (fmul (totalHeight e) dpr), cv_ops = [] \<rparr>"
  have idx: "\<forall>i\<in>set [0..<length segments].
      i < length segments \<and> decodeImage host (dataUrl (segments ! i)) \<noteq> None"
    using assms(3) by simp
  have "stacked (cv_ops ?c0)" by (simp add: stacked_def)
  moreover have "(0::number) = sum_list (map destHeight (cv_ops ?c0))" by simp
  ultimately obtain canvas where
      loop: "stitchLoop host segments dpr ?w [0..<length segments] (?c0, 0) =
               Inr (canvas, sum_list (map destHeight (cv_ops canvas)))"
      and dims: "cv_width canvas = setCanvasDimension 300 ?w"
                "cv_height canvas = setCanvasDimension 150 (fmul (totalHeight e) dpr)"
      and st: "stacked (cv_ops canvas)"
      and hs: "map destHeight (cv_ops canvas) =
                 map (contributedHeight host segments dpr ?w) [0..<length segments]"
    using stitchLoop_decoded[OF idx, of ?c0 0 dpr ?w] by auto
  obtain a b rest where segs: "segments = a # b # rest"
    using assms(1) by (cases segments; cases "tl segments") auto
  have res: "stitchScreenshotSegments host segments e dpr = Inr canvas"
    using loop assms(2) unfolding segs stitchScreenshotSegments_def
    by (simp add: Let_def del: upt_Suc)
  have "sum_list (map destHeight (cv_ops canvas)) =
          (\<Sum>i<length segments. contributedHeight host segments dpr ?w i)"
    unfolding hs by (simp add: interv_sum_list_conv_sum_set_nat atLeast0LessThan)
  with res dims st hs show ?thesis by blast
qed


subsection \<open>The example captures, evaluated\<close>

lemma segmentAt_sel:
  "dataUrl (segmentAt i y w h) = ''data:image/png;base64,segment''"
  "sp_y (scrollPosition (segmentAt i y w h)) = y"
  "rect_left (elementRect (segmentAt i y w h)) = 0"
  "rect_top (elementRect (segmentAt i y w h)) = 0"
  "rect_height (elementRect (segmentAt i y w h)) = h"
  by (simp_all add: segmentAt_def)

lemma stuck_facts:
  "length stuckSegments = 2"
  "stuckSegments ! 0 = segmentAt 0 0 800 600"
  "stuckSegments ! Suc 0 = segmentAt 1 0 800 600"
  by (simp_all add: stuckSegments_def)

lemma test_facts:
  "length testSegments = 3"
  "testSegments ! 0 = segmentAt 0 0 800 600"
  "testSegments ! Suc 0 = segmentAt 1 480 800 600"
  "testSegments ! 2 = segmentAt 2 960 800 600"
  "set testSegments = {segmentAt 0 0 800 600, segmentAt 1 480 800 600, segmentAt 2 960 800 600}"
  "rect_width (boundingRect testElement) = 800"
  "totalHeight testElement = 1800"
  "hasTransform testElement = False" "hasShadow testElement = False" "isFixed testElement = False"
  by (simp_all add: testSegments_def testElement_def plainElement_def)

lemma viewportHost_decode:
  "decodeImage (viewportHost w h) ''data:image/png;base64,segment'' = Some (segmentImage w h)"
  "decodeImage (viewportHost w h) url \<noteq> None"
  "contextAvailable (viewportHost w h)"
  "img_width (segmentImage w h) = w" "img_height (segmentImage w h) = h"
  by (auto simp add: viewportHost_def segmentImage_def)

lemma clamped_example:
  "clampedCropHeight (viewportHost iw ih) (segmentAt i y w h) dpr ew =
     max 1 (min (h * dpr) ih)"
proof -
  have "decodeImage (viewportHost iw ih) (dataUrl (segmentAt i y w h)) = Some (segmentImage iw ih)"
    by (simp add: viewportHost_decode segmentAt_sel)
  then show ?thesis
    by (simp add: clampedCropHeight_def segmentCrop_def adjustCropArea_def segmentAt_sel
        viewportHost_decode)
qed

lemma stuck_overlap: "overlapWithPrevious stuckSegments (Suc 0) 1 = 600"
  by (simp add: overlapWithPrevious_def stuck_facts segmentAt_sel)

lemma stuck_step:
  "stitchStep (viewportHost 800 ih) stuckSegments 1 800 (Suc 0) (blankCanvas 800 1800, y) =
     Inr (\<lparr> cv_width = 800, cv_height = 1800,
             cv_ops = [DrawImage (segmentImage 800 ih) 0 600 800 (max 1 (min 600 ih) - 600)
                         0 y 800 (max 1 (min 600 ih) - 600)] \<rparr>,
          y + (max 1 (min 600 ih) - 600))"
proof -
  have i: "Suc 0 < length stuckSegments" by (simp add: stuck_facts)
  have d: "decodeImage (viewportHost 800 ih) (dataUrl (stuckSegments ! Suc 0))
             = Some (segmentImage 800 ih)"
    by (simp add: stuck_facts segmentAt_sel viewportHost_decode)
  have c: "contributedHeight (viewportHost 800 ih) stuckSegments 1 800 (Suc 0) =
             max 1 (min 600 ih) - 600"
    by (simp add: contributedHeight_def stuck_facts clamped_example stuck_overlap)
  have a: "adjustCropArea (segmentCrop (stuckSegments ! Suc 0) 1 800) 800 ih =
      \<lparr> crop_x = 0, crop_y = 0, crop_width = max 1 800, crop_height = max 1 (min 600 ih) \<rparr>"
    by (simp add: adjustCropArea_def segmentCrop_def stuck_facts segmentAt_sel)
  show ?thesis
    by (simp add: stitchStep_decoded[OF i d] c a stuck_overlap viewportHost_decode blankCanvas_def)
qed

lemma test_contributions:
  "contributedHeight (viewportHost 1600 1200) testSegments 2 1600 0 = 1200"
  "contributedHeight (viewportHost 1600 1200) testSegments 2 1600 (Suc 0) = 960"
  "contributedHeight (viewportHost 1600 1200) testSegments 2 1600 2 = 960"
  by (simp_all add: contributedHeight_def clamped_example overlapWithPrevious_def
      test_facts segmentAt_sel)

lemma test_indices: "[0..<3] = [0, 1, 2::nat]"
  by (simp add: upt_conv_Cons)

lemma test_dimensions:
  "fmul 800 2 = 1600" "fmul 1800 2 = 3600"
  "setCanvasDimension 300 1600 = 1600" "setCanvasDimension 150 3600 = 3600"
  "setCanvasDimension 150 1200 = 1200"
proof -
  show "fmul 800 2 = 1600" "fmul 1800 2 = 3600"
    by (simp_all add: fmul_def roundDouble_numeral)
  show "setCanvasDimension 300 1600 = 1600" "setCanvasDimension 150 3600 = 3600"
    "setCanvasDimension 150 1200 = 1200"
    by (simp_all add: setCanvasDimension_floor)
qed

lemma odd_facts:
  "rect_width (boundingRect oddElement) = 801" "totalHeight oddElement = 1801"
  by (simp_all add: oddElement_def plainElement_def)

text \<open>At the device pixel ratio 1.25 an element 801 by 1801 measures 1001.25 by 2251.25
  device pixels; the canvas is 1001 by 2251.\<close>

lemma odd_dimensions:
  "fmul 801 (5/4) = 4005/4" "fmul 1801 (5/4) = 9005/4"
  "setCanvasDimension 300 (4005/4) = 1001" "setCanvasDimension 150 (9005/4) = 2251"
proof -
  show "fmul 801 (5/4) = 4005/4"
    using roundScaled_exact[of 4005 2 0] by (simp add: fmul_def roundDouble_def minExponent_def)
  show "fmul 1801 (5/4) = 9005/4"
    using roundScaled_exact[of 9005 2 0] by (simp add: fmul_def roundDouble_def minExponent_def)
  show "setCanvasDimension 300 (4005/4) = 1001" "setCanvasDimension 150 (9005/4) = 2251"
    by (simp_all add: setCanvasDimension_floor floor_quotient)
qed

lemma test_stitch:
  "\<exists>canvas. stitchScreenshotSegments (viewportHost 1600 1200) testSegments testElement 2 = Inr canvas
      \<and> cv_width canvas = 1600 \<and> cv_height canvas = 3600
      \<and> map destHeight (cv_ops canvas) = [1200, 960, 960]"
proof -
  have l: "2 \<le> length testSegments" by (simp add: test_facts)
  have d: "\<forall>s\<in>set testSegments. decodeImage (viewportHost 1600 1200) (dataUrl s) \<noteq> None"
    by (simp add: viewportHost_decode)
  from stitch_decoded_result[OF l viewportHost_decode(3) d, of testElement 2]
  show ?thesis
    by (auto simp: test_indices test_facts test_contributions test_dimensions)
qed

text \<open>
  C3 (as amended). With a non-negative device pixel ratio the overlap of every pair of
  consecutive segments is defined and non-negative. When the scroll did not advance, the
  overlap is the full measured height times the ratio, and the round of the stitcher on a
  segment whose raster decodes does not fail: it draws the segment with the height
  (clamped crop height - overlap) and moves the write offset by that amount. The amount is
  zero exactly when the crop height was not clamped, and it is never positive when the
  measured height is at least one device pixel. There is no clamping to zero.
\<close>

theorem stuck_scroll_contribution:
  assumes "0 \<le> dpr" and "0 < i" and "i < length segments"
  shows "\<exists>ov. calculateOverlapHeight segments i dpr = Some ov \<and> 0 \<le> ov
          \<and> (sp_y (scrollPosition (segments ! i)) = sp_y (scrollPosition (segments ! (i - 1)))
               \<and> 0 \<le> rect_height (elementRect (segments ! i))
               \<and> decodeImage host (dataUrl (segments ! i)) = Some img
               \<longrightarrow> ov = rect_height (elementRect (segments ! i)) * dpr
                 \<and> (\<exists>canvas'. stitchStep host segments dpr w i (canvas, currentY) =
                        Inr (canvas', currentY + (clampedCropHeight host (segments ! i) dpr w - ov)))
                 \<and> (clampedCropHeight host (segments ! i) dpr w - ov = 0
                       \<longleftrightarrow> clampedCropHeight host (segments ! i) dpr w
                              = rect_height (elementRect (segments ! i)) * dpr)
                 \<and> (1 \<le> rect_height (elementRect (segments ! i)) * dpr
                       \<longrightarrow> clampedCropHeight host (segments ! i) dpr w - ov \<le> 0))"
proof -
  let ?h = "rect_height (elementRect (segments ! i))"
  let ?ov = "overlapWithPrevious segments i dpr"
  have ov: "calculateOverlapHeight segments i dpr = Some ?ov"
    using assms(2,3) by (simp add: calculateOverlapHeight_def overlapWithPrevious_def Let_def)
  have nn: "0 \<le> ?ov"
    using assms(1,2) by (simp add: overlapWithPrevious_def)
  have stuck: "?ov = ?h * dpr
       \<and> (\<exists>canvas'. stitchStep host segments dpr w i (canvas, currentY) =
              Inr (canvas', currentY + (clampedCropHeight host (segments ! i) dpr w - ?ov)))
       \<and> (clampedCropHeight host (segments ! i) dpr w - ?ov = 0
             \<longleftrightarrow> clampedCropHeight host (segments ! i) dpr w = ?h * dpr)
       \<and> (1 \<le> ?h * dpr \<longrightarrow> clampedCropHeight host (segments ! i) dpr w - ?ov \<le> 0)"
    if same: "sp_y (scrollPosition (segments ! i)) = sp_y (scrollPosition (segments ! (i - 1)))"
      and h: "0 \<le> ?h"
      and img: "decodeImage host (dataUrl (segments ! i)) = Some img"
  proof -
    have e: "?ov = ?h * dpr"
      using assms(2) h same by (simp add: overlapWithPrevious_def max_def)
    have s: "\<exists>canvas'. stitchStep host segments dpr w i (canvas, currentY) =
              Inr (canvas', currentY + (clampedCropHeight host (segments ! i) dpr w - ?ov))"
      using stitchStep_decoded[OF assms(3) img, of dpr w canvas currentY]
      by (simp add: contributedHeight_def)
    have c: "clampedCropHeight host (segments ! i) dpr w \<le> ?h * dpr" if "1 \<le> ?h * dpr"
      using that img
      by (simp add: clampedCropHeight_def adjustCropArea_def segmentCrop_def Let_def)
    show ?thesis using e s c by auto
  qed
  show ?thesis
    using ov nn stuck by blast
qed

theorem stuck_scroll_contribution_witness:
  "(0::number) \<le> 1 \<and> (0::nat) < 1 \<and> 1 < length stuckSegments
   \<and> decodeImage (viewportHost 800 600) (dataUrl (stuckSegments ! 1)) = Some (segmentImage 800 600)
   \<and> sp_y (scrollPosition (stuckSegments ! 1)) = sp_y (scrollPosition (stuckSegments ! (1 - 1)))
   \<and> calculateOverlapHeight stuckSegments 1 1 = Some 600
   \<and> clampedCropHeight (viewportHost 800 600) (stuckSegments ! 1) 1 800 = 600
   \<and> stitchStep (viewportHost 800 600) stuckSegments 1 800 1 (blankCanvas 800 1800, 600)
       = Inr (\<lparr> cv_width = 800, cv_height = 1800,
                 cv_ops = [DrawImage (segmentImage 800 600) 0 600 800 0 0 600 800 0] \<rparr>, 600)"
proof -
  have d: "decodeImage (viewportHost 800 600) (dataUrl (stuckSegments ! Suc 0))
             = Some (segmentImage 800 600)"
    by (simp add: stuck_facts segmentAt_sel viewportHost_decode)
  have h: "0 \<le> rect_height (elementRect (stuckSegments ! Suc 0))"
    by (simp add: stuck_facts segmentAt_sel)
  have same: "sp_y (scrollPosition (stuckSegments ! Suc 0)) = sp_y (scrollPosition (stuckSegments ! 0))"
    by (simp add: stuck_facts segmentAt_sel)
  from stuck_scroll_contribution[of 1 "Suc 0" stuckSegments "viewportHost 800 600"
          "segmentImage 800 600" 800 "blankCanvas 800 1800" 600]
  have ov: "calculateOverlapHeight stuckSegments (Suc 0) 1 = Some 600"
    using same d h by (auto simp: stuck_facts segmentAt_sel)
  show ?thesis
    using d same ov by (simp add: stuck_facts stuck_step clamped_example)
qed

theorem stuck_scroll_counterexample:
  "calculateOverlapHeight stuckSegments 1 1 = Some 600
   \<and> rect_height (elementRect (stuckSegments ! 1)) * 1 = 600
   \<and> stitchStep (viewportHost 800 500) stuckSegments 1 800 1 (blankCanvas 800 1800, 500)
       = Inr (\<lparr> cv_width = 800, cv_height = 1800,
                 cv_ops = [DrawImage (segmentImage 800 500) 0 600 800 (- 100) 0 500 800 (- 100)] \<rparr>,
              400)"
  by (simp add: calculateOverlapHeight_def stuck_facts segmentAt_sel stuck_step)

text \<open>
  C4 (as amended). For \<open>n \<ge> 2\<close> segments whose rasters decode, with a canvas context
  available, the stitcher succeeds. Its output canvas is allocated at
  \<open>boundingRect.width * devicePixelRatio\<close> by \<open>totalHeight * devicePixelRatio\<close>, each
  product stored as the canvas stores a dimension: for a product from 0 up to 2147483647
  its integer part. The height of the output is therefore the integer part of
  \<open>totalHeight * devicePixelRatio\<close>, whatever the segments are. The stitcher draws one
  call per segment, each with the segment's contributed height and right below the calls
  before it, so the drawn extent (the final write offset) is the sum of the contributed
  heights.
\<close>

theorem stitch_output:
  assumes "2 \<le> length segments" and "contextAvailable host"
      and "\<forall>s\<in>set segments. decodeImage host (dataUrl s) \<noteq> None"
  shows "\<exists>canvas.
           stitchScreenshotSegments host segments e dpr = Inr canvas
         \<and> cv_width canvas = setCanvasDimension 300 (fmul (rect_width (boundingRect e)) dpr)
         \<and> cv_height canvas = setCanvasDimension 150 (fmul (totalHeight e) dpr)
         \<and> (0 \<le> fmul (rect_width (boundingRect e)) dpr
              \<and> fmul (rect_width (boundingRect e)) dpr < 2147483648
              \<longrightarrow> int (cv_width canvas) = \<lfloor>fmul (rect_width (boundingRect e)) dpr\<rfloor>)
         \<and> (0 \<le> fmul (totalHeight e) dpr \<and> fmul (totalHeight e) dpr < 2147483648
              \<longrightarrow> int (cv_height canvas) = \<lfloor>fmul (totalHeight e) dpr\<rfloor>)
         \<and> stacked (cv_ops canvas)
         \<and> map destHeight (cv_ops canvas) =
             map (contributedHeight host segments dpr (fmul (rect_width (boundingRect e)) dpr))
                 [0..<length segments]
         \<and> sum_list (map destHeight (cv_ops canvas)) =
             (\<Sum>i<length segments.
                 contributedHeight host segments dpr (fmul (rect_width (boundingRect e)) dpr) i)"
proof -
  from stitch_decoded_result[OF assms, of e dpr]
  obtain canvas where c:
      "stitchScreenshotSegments host segments e dpr = Inr canvas"
      "cv_width canvas = setCanvasDimension 300 (fmul (rect_width (boundingRect e)) dpr)"
      "cv_height canvas = setCanvasDimension 150 (fmul (totalHeight e) dpr)"
      "stacked (cv_ops canvas)"
      "map destHeight (cv_ops canvas) =
         map (contributedHeight host segments dpr (fmul (rect_width (boundingRect e)) dpr))
             [0..<length segments]"
      "sum_list (map destHeight (cv_ops canvas)) =
         (\<Sum>i<length segments.
             contributedHeight host segments dpr (fmul (rect_width (boundingRect e)) dpr) i)"
    by blast
  have w: "int (cv_width canvas) = \<lfloor>fmul (rect_width (boundingRect e)) dpr\<rfloor>"
    if "0 \<le> fmul (rect_width (boundingRect e)) dpr"
       "fmul (rect_width (boundingRect e)) dpr < 2147483648"
    using that by (simp add: c(2) setCanvasDimension_floor)
  have h: "int (cv_height canvas) = \<lfloor>fmul (totalHeight e) dpr\<rfloor>"
    if "0 \<le> fmul (totalHeight e) dpr" "fmul (totalHeight e) dpr < 2147483648"
    using that by (simp add: c(3) setCanvasDimension_floor)
  show ?thesis
    using c w h by (intro exI[of _ canvas]) simp
qed

theorem stitch_output_witness:
  "2 \<le> length testSegments \<and> contextAvailable (viewportHost 1600 1200)
   \<and> list_all (\<lambda>s. decodeImage (viewportHost 1600 1200) (dataUrl s) \<noteq> None) testSegments
   \<and> map_sum id cv_width
        (stitchScreenshotSegments (viewportHost 1600 1200) testSegments testElement 2) = Inr 1600
   \<and> map_sum id cv_height
        (stitchScreenshotSegments (viewportHost 1600 1200) testSegments testElement 2) = Inr 3600
   \<and> map_sum id (\<lambda>c. map destHeight (cv_ops c))
        (stitchScreenshotSegments (viewportHost 1600 1200) testSegments testElement 2)
        = Inr [1200, 960, 960]
   \<and> fmul (rect_width (boundingRect oddElement)) (5/4) = 4005/4
   \<and> fmul (totalHeight oddElement) (5/4) = 9005/4
   \<and> map_sum id cv_width
        (stitchScreenshotSegments (viewportHost 1600 1200) testSegments oddElement (5/4)) = Inr 1001
   \<and> map_sum id cv_height
        (stitchScreenshotSegments (viewportHost 1600 1200) testSegments oddElement (5/4)) = Inr 2251"
proof -
  have l: "2 \<le> length testSegments" by (simp add: test_facts)
  have d: "\<forall>s\<in>set testSegments. decodeImage (viewportHost 1600 1200) (dataUrl s) \<noteq> None"
    by (simp add: viewportHost_decode)
  from stitch_output[OF l viewportHost_decode(3) d, of testElement 2]
  obtain canvas where
    "stitchScreenshotSegments (viewportHost 1600 1200) testSegments testElement 2 = Inr canvas"
    "cv_width canvas = 1600" "cv_height canvas = 3600"
    "map destHeight (cv_ops canvas) = [1200, 960, 960]"
    by (auto simp: test_indices test_facts test_contributions test_dimensions)
  moreover from stitch_output[OF l viewportHost_decode(3) d, of oddElement "5/4"]
  obtain canvas' where
    "stitchScreenshotSegments (viewportHost 1600 1200) testSegments oddElement (5/4) = Inr canvas'"
    "cv_width canvas' = 1001" "cv_height canvas' = 2251"
    by (auto simp: odd_facts odd_dimensions)
  ultimately show ?thesis
    using l d by (simp add: list_all_iff viewportHost_decode odd_facts odd_dimensions)
qed

theorem stitch_height_counterexample:
  "map_sum id cv_height
     (stitchScreenshotSegments (viewportHost 1600 1200) testSegments testElement 2) = Inr 3600
   \<and> sum_list (map (contributedHeight (viewportHost 1600 1200) testSegments 2 1600) [0, 1, 2])
       = 3120"
  using test_stitch by (auto simp: test_contributions)

text \<open>
  C9. Stitching a single segment is the direct crop of its screenshot: the same canvas on
  success, the same error on failure.
\<close>

theorem stitch_single_is_crop:
  "stitchScreenshotSegments host [s] elementInfo dpr =
     cropToElement host (dataUrl s) elementInfo dpr"
  by (simp add: stitchScreenshotSegments_def)

theorem stitch_single_is_crop_witness:
  "stitchScreenshotSegments (viewportHost 1600 1200) [segmentAt 0 0 800 600] testElement 2 =
     cropToElement (viewportHost 1600 1200) ''data:image/png;base64,segment'' testElement 2
   \<and> cropToElement (viewportHost 1600 1200) ''data:image/png;base64,segment'' testElement 2 =
       Inr \<lparr> cv_width = 1600, cv_height = 1200,
              cv_ops = [DrawImage (segmentImage 1600 1200) 0 0 1600 1200 0 0 1600 1200] \<rparr>"
proof -
  have c: "calculateComplexElementCropArea testElement 2 =
      \<lparr> crop_x = 0, crop_y = 0, crop_width = 1600, crop_height = 1200 \<rparr>"
    by (simp add: calculateComplexElementCropArea_def testElement_def plainElement_def)
  have l: "loadImage (viewportHost 1600 1200) ''data:image/png;base64,segment''
             = Inr (segmentImage 1600 1200)"
    by (simp add: loadImage_def viewportHost_def segmentImage_def)
  have a: "adjustCropArea \<lparr> crop_x = 0, crop_y = 0, crop_width = 1600, crop_height = 1200 \<rparr>
             1600 1200 = \<lparr> crop_x = 0, crop_y = 0, crop_width = 1600, crop_height = 1200 \<rparr>"
    by (simp add: adjustCropArea_def)
  have "cropToElement (viewportHost 1600 1200) ''data:image/png;base64,segment'' testElement 2 =
       Inr \<lparr> cv_width = 1600, cv_height = 1200,
              cv_ops = [DrawImage (segmentImage 1600 1200) 0 0 1600 1200 0 0 1600 1200] \<rparr>"
    by (simp add: cropToElement_def l c a viewportHost_decode test_facts drawCrop_def
        test_dimensions)
  then show ?thesis
    using stitch_single_is_crop[of "viewportHost 1600 1200" "segmentAt 0 0 800 600" testElement 2]
    by (simp add: segmentAt_sel)
qed

section \<open>Properties of the orchestration\<close>

lemma sendMessage_delivered:
  "sendMessage host tab msg = Inr tab1 \<Longrightarrow>
     delivered tab1 = delivered tab @ [msg] \<and> page tab1 = handleMessage (page tab) msg"
  by (auto simp: sendMessage_def split: if_splits)

text \<open>The loop handles a prefix of the scroll instructions; when it returns the segments,
  it has handled all of them and captured one segment per offset.\<close>

lemma captureLoop_trace:
  "captureLoop host sel ps i segs tab = (r, tab') \<Longrightarrow>
     (\<exists>k\<le>length ps. delivered tab' =
         delivered tab @ take k (map (\<lambda>p. SCROLL_TO_POSITION sel (sp_y p)) ps))
   \<and> (\<forall>segs'. r = Inr segs' \<longrightarrow>
         delivered tab' = delivered tab @ map (\<lambda>p. SCROLL_TO_POSITION sel (sp_y p)) ps
       \<and> map scrollPosition segs' = map scrollPosition segs @ ps)"
proof (induction ps arbitrary: i segs tab)
  case Nil
  then show ?case by auto
next
  case (Cons p rest)
  let ?msg = "SCROLL_TO_POSITION sel (sp_y p)"
  show ?case
  proof (cases "sendMessage host tab ?msg")
    case (Inl err)
    then have "r = Inl err" "tab' = tab" using Cons.prems by simp_all
    then show ?thesis by (auto intro: exI[of _ 0])
  next
    case (Inr tab1)
    then have d1: "delivered tab1 = delivered tab @ [?msg]"
      using sendMessage_delivered by blast
    show ?thesis
    proof (cases "\<exists>url rect. captureFullPage host i = Inr url
                            \<and> getElementRectAfterScroll host i = Inr rect")
      case False
      then have "tab' = tab1" "\<exists>err. r = Inl err"
        using Cons.prems Inr by (auto split: sum.splits)
      then show ?thesis using d1 by (auto intro: exI[of _ 1])
    next
      case True
      then obtain url rect where ok: "captureFullPage host i = Inr url"
          "getElementRectAfterScroll host i = Inr rect"
        by blast
      let ?seg = "\<lparr> dataUrl = url, scrollPosition = p, segmentIndex = i, elementRect = rect \<rparr>"
      have rec: "captureLoop host sel rest (i + 1) (segs @ [?seg]) tab1 = (r, tab')"
        using Cons.prems Inr ok by simp
      from Cons.IH[OF rec] obtain k where k: "k \<le> length rest"
          "delivered tab' = delivered tab1 @ take k (map (\<lambda>p. SCROLL_TO_POSITION sel (sp_y p)) rest)"
        and all: "\<forall>segs'. r = Inr segs' \<longrightarrow>
            delivered tab' = delivered tab1 @ map (\<lambda>p. SCROLL_TO_POSITION sel (sp_y p)) rest
          \<and> map scrollPosition segs' = map scrollPosition (segs @ [?seg]) @ rest"
        by blast
      have "Suc k \<le> length (p # rest)" using k(1) by simp
      moreover have "delivered tab' = delivered tab @
           take (Suc k) (map (\<lambda>p. SCROLL_TO_POSITION sel (sp_y p)) (p # rest))"
        using k(2) d1 by simp
      ultimately have pre: "\<exists>k\<le>length (p # rest). delivered tab' =
         delivered tab @ take k (map (\<lambda>p. SCROLL_TO_POSITION sel (sp_y p)) (p # rest))"
        by blast
      show ?thesis using pre all d1 by simp
    qed
  qed
qed

text \<open>
  C5 (as amended). A run that completes successfully sends the reset instruction once more
  after the last segment, so the target (when it is present) is at (0,0) when the run
  returns, and it returns one segment for every planned offset. A run that fails throws at
  the failing step without cleanup: the page has handled only a prefix of the messages
  reset, scroll to \<open>y0\<close>, scroll to \<open>y1\<close>, ..., and no reset after that, so the target
  stays where the last handled scroll instruction put it. A failed run throws an error and
  yields no segments.
\<close>

theorem capture_reset_and_failure:
  assumes "captureLongScreenshot host e tab = (r, tab')"
  shows "(\<forall>res. r = Inr res \<longrightarrow>
            delivered tab' = delivered tab @ plannedMessages e @ [RESET_SCROLL (selector e)]
          \<and> (elementPresent (page tab') \<longrightarrow>
                scrollTop (page tab') = 0 \<and> scrollLeft (page tab') = 0)
          \<and> map scrollPosition (cr_segments res) = calculateScrollSegments e
          \<and> cr_totalHeight res = totalHeight e)
       \<and> (\<forall>err. r = Inl err \<longrightarrow>
            (\<exists>k\<le>length (plannedMessages e).
                delivered tab' = delivered tab @ take k (plannedMessages e))
          \<and> (\<exists>m. err = ''Long screenshot capture failed: '' @ m))"
proof (cases "sendMessage host tab (RESET_SCROLL (selector e))")
  case (Inl err)
  then have "r = Inl (''Long screenshot capture failed: '' @ err)" "tab' = tab"
    using assms by (simp_all add: captureLongScreenshot_def)
  then show ?thesis by (auto intro: exI[of _ 0])
next
  case (Inr tab1)
  let ?reset = "RESET_SCROLL (selector e)"
  let ?scrolls = "map (\<lambda>p. SCROLL_TO_POSITION (selector e) (sp_y p)) (calculateScrollSegments e)"
  have d1: "delivered tab1 = delivered tab @ [?reset]"
    using Inr sendMessage_delivered by blast
  obtain r2 tab2 where loop:
    "captureLoop host (selector e) (calculateScrollSegments e) 0 [] tab1 = (r2, tab2)"
    by (cases "captureLoop host (selector e) (calculateScrollSegments e) 0 [] tab1") auto
  note tr = captureLoop_trace[OF loop]
  from tr obtain k where k: "k \<le> length (calculateScrollSegments e)"
      "delivered tab2 = delivered tab1 @ take k ?scrolls"
    by blast
  from tr have full: "\<forall>segs'. r2 = Inr segs' \<longrightarrow> delivered tab2 = delivered tab1 @ ?scrolls
          \<and> map scrollPosition segs' = calculateScrollSegments e"
    by simp
  have pre2: "\<exists>k\<le>length (plannedMessages e). delivered tab2 = delivered tab @ take k (plannedMessages e)"
    using k d1 by (intro exI[of _ "Suc k"]) (simp add: plannedMessages_def)
  show ?thesis
  proof (cases r2)
    case (Inl err)
    then have "r = Inl (''Long screenshot capture failed: '' @ err)" "tab' = tab2"
      using assms Inr loop by (simp_all add: captureLongScreenshot_def)
    then show ?thesis using pre2 by auto
  next
    case segs: (Inr segments)
    show ?thesis
    proof (cases "sendMessage host tab2 ?reset")
      case (Inl err)
      then have "r = Inl (''Long screenshot capture failed: '' @ err)" "tab' = tab2"
        using assms Inr loop segs by (simp_all add: captureLongScreenshot_def)
      then show ?thesis using pre2 by auto
    next
      case fin: (Inr tab3)
      then have res: "r = Inr \<lparr> cr_segments = segments, cr_totalHeight = totalHeight e \<rparr>"
          and t: "tab' = tab3"
        using assms Inr loop segs by (simp_all add: captureLongScreenshot_def)
      have d3: "delivered tab3 = delivered tab2 @ [?reset]"
          and p3: "page tab3 = resetElementScroll (page tab2)"
        using fin sendMessage_delivered[of host tab2 ?reset tab3] by (simp_all add: handleMessage_def)
      have "delivered tab' = delivered tab @ plannedMessages e @ [?reset]"
        using d3 d1 full segs t by (simp add: plannedMessages_def)
      moreover have "elementPresent (page tab') \<longrightarrow>
                scrollTop (page tab') = 0 \<and> scrollLeft (page tab') = 0"
        unfolding t p3 by (simp add: resetElementScroll_def)
      moreover have "map scrollPosition segments = calculateScrollSegments e"
        using full segs by simp
      ultimately show ?thesis using res by simp
    qed
  qed
qed

lemma test_plan:
  "calculateScrollSegments testElement =
     [\<lparr> sp_x = 0, sp_y = 0, isComplete = False \<rparr>, \<lparr> sp_x = 0, sp_y = 480, isComplete = False \<rparr>,
      \<lparr> sp_x = 0, sp_y = 960, isComplete = False \<rparr>]"
  by (simp add: testElement_def plainElement_def calculateScrollSegments_def scrollLoop.simps
        step_600 extent_facts fadd_def roundDouble_numeral)

lemma testElement_sel:
  "selector testElement = ''.long-content''" "totalHeight testElement = 1800"
  by (simp_all add: testElement_def plainElement_def)

lemma failed_run:
  "captureLongScreenshot secondCaptureFails testElement freshTab =
     (Inl ''Long screenshot capture failed: Screenshot capture failed: The tab was closed'',
      \<lparr> page = \<lparr> elementPresent = True, scrollTop = 480, scrollLeft = 0, maxScrollTop = 1200 \<rparr>,
        delivered = [RESET_SCROLL ''.long-content'', SCROLL_TO_POSITION ''.long-content'' 0,
                     SCROLL_TO_POSITION ''.long-content'' 480] \<rparr>)"
  by (simp add: captureLongScreenshot_def test_plan sendMessage_def secondCaptureFails_def
      freshTab_def handleMessage_def resetElementScroll_def scrollElementToPosition_def
      captureFullPage_def getElementRectAfterScroll_def testElement_sel)

theorem capture_reset_and_failure_witness:
  "fst (captureLongScreenshot secondCaptureFails testElement freshTab) =
      Inl ''Long screenshot capture failed: Screenshot capture failed: The tab was closed''
   \<and> delivered (snd (captureLongScreenshot secondCaptureFails testElement freshTab)) =
      take 3 (plannedMessages testElement)
   \<and> map_sum id (\<lambda>res. length (cr_segments res))
        (fst (captureLongScreenshot reliableTab testElement freshTab)) = Inr 3
   \<and> scrollTop (page (snd (captureLongScreenshot reliableTab testElement freshTab))) = 0"
proof -
  obtain r tab' where run: "captureLongScreenshot reliableTab testElement freshTab = (r, tab')"
    by (cases "captureLongScreenshot reliableTab testElement freshTab") auto
  have ok: "\<exists>res. r = Inr res"
    using run
    by (auto simp add: captureLongScreenshot_def test_plan sendMessage_def reliableTab_def
      captureFullPage_def getElementRectAfterScroll_def)
  have present: "elementPresent (page tab')"
    using run
    by (auto simp add: captureLongScreenshot_def test_plan sendMessage_def reliableTab_def
      freshTab_def handleMessage_def resetElementScroll_def scrollElementToPosition_def
      captureFullPage_def getElementRectAfterScroll_def)
  from capture_reset_and_failure[OF run] ok present
  obtain res where "r = Inr res" "scrollTop (page tab') = 0"
      "map scrollPosition (cr_segments res) = calculateScrollSegments testElement"
    by auto
  then have "map_sum id (\<lambda>res. length (cr_segments res)) r = Inr 3" "scrollTop (page tab') = 0"
    using length_map[of scrollPosition "cr_segments res"] by (simp_all add: test_plan)
  then show ?thesis
    by (simp add: run failed_run plannedMessages_def test_plan testElement_sel)
qed

theorem capture_no_reset_on_failure_counterexample:
  "fst (captureLongScreenshot secondCaptureFails testElement freshTab) =
      Inl ''Long screenshot capture failed: Screenshot capture failed: The tab was closed''
   \<and> scrollTop (page (snd (captureLongScreenshot secondCaptureFails testElement freshTab))) = 480
   \<and> last (delivered (snd (captureLongScreenshot secondCaptureFails testElement freshTab))) =
      SCROLL_TO_POSITION ''.long-content'' 480"
  by (simp add: failed_run)

section \<open>Properties of the shadow bounds\<close>

lemma Max_cons_max:
  fixes a :: number
  shows "Max (set (max a e # xs)) = Max (set (a # e # xs))"
proof (cases "xs = []")
  case True
  then show ?thesis by (simp add: max.commute)
next
  case False
  then show ?thesis by (simp add: max.assoc)
qed

lemma shadowLoop_Max:
  "shadowLoop pf shadows acc =
     Max (set (acc # map (shadowExtent pf)
                 (filter (\<lambda>vals. length vals \<ge> 2)
                    (map (\<lambda>shadow. splitSpaces (trim shadow)) shadows))))"
proof (induction shadows arbitrary: acc)
  case Nil
  show ?case by simp
next
  case (Cons shadow rest)
  let ?vals = "splitSpaces (trim shadow)"
  let ?exts = "map (shadowExtent pf)
                 (filter (\<lambda>vals. length vals \<ge> 2)
                    (map (\<lambda>shadow. splitSpaces (trim shadow)) rest))"
  show ?case
  proof (cases "length ?vals \<ge> 2")
    case True
    have "shadowLoop pf (shadow # rest) acc = shadowLoop pf rest (max acc (shadowExtent pf ?vals))"
      using True by (simp add: Let_def)
    also have "\<dots> = Max (set (max acc (shadowExtent pf ?vals) # ?exts))"
      by (rule Cons.IH)
    also have "\<dots> = Max (set (acc # shadowExtent pf ?vals # ?exts))"
      by (rule Max_cons_max)
    also have "acc # shadowExtent pf ?vals # ?exts =
        acc # map (shadowExtent pf)
                 (filter (\<lambda>vals. length vals \<ge> 2)
                    (map (\<lambda>shadow. splitSpaces (trim shadow)) (shadow # rest)))"
      using True by simp
    finally show ?thesis .
  next
    case False
    then show ?thesis using Cons.IH[of acc] by (simp add: Let_def)
  qed
qed

lemma parseShadowExtent_Max:
  "parseShadowExtent pf s = Max (set (0 # map (shadowExtent pf) (shadowsOf s)))"
  by (simp add: parseShadowExtent_def shadowsOf_def shadowLoop_Max)

lemma shadowsOf_absent: "shadowsOf [] = []" "shadowsOf ''none'' = []"
  by (simp_all add: shadowsOf_def trim_def isSpace_def)

lemma maxShadowExtent_eq:
  "(let m1 = (if boxS \<noteq> [] \<and> boxS \<noteq> ''none'' then max 0 (parseShadowExtent pf boxS) else 0)
    in if textS \<noteq> [] \<and> textS \<noteq> ''none'' then max m1 (parseShadowExtent pf textS) else m1)
   = maxExtentOf pf boxS textS"
proof -
  let ?B = "set (0 # map (shadowExtent pf) (shadowsOf boxS))"
  let ?T = "set (0 # map (shadowExtent pf) (shadowsOf textS))"
  have b: "(if boxS \<noteq> [] \<and> boxS \<noteq> ''none'' then max 0 (parseShadowExtent pf boxS) else 0) = Max ?B"
    by (auto simp: parseShadowExtent_Max shadowsOf_absent)
  have t: "(if textS \<noteq> [] \<and> textS \<noteq> ''none'' then max (Max ?B) (parseShadowExtent pf textS) else Max ?B)
             = max (Max ?B) (Max ?T)"
  proof -
    have "0 \<le> Max ?B" by simp
    then show ?thesis
      by (auto simp: parseShadowExtent_Max shadowsOf_absent)
  qed
  have u: "max (Max ?B) (Max ?T) = Max (?B \<union> ?T)"
    by (rule Max_Un[symmetric]) simp_all
  have "?B \<union> ?T = set (0 # map (shadowExtent pf) (shadowsOf boxS @ shadowsOf textS))"
    by auto
  then show ?thesis
    unfolding Let_def b t u maxExtentOf_def by simp
qed

lemma shadowBounds_expand:
  "shadowBounds (calculateShadowBounds pf w rect boxS textS) =
     expandBox (pageBox w rect) (maxExtentOf pf boxS textS)"
  using maxShadowExtent_eq[of boxS pf textS]
  by (simp add: calculateShadowBounds_def expandBox_def pageBox_def Let_def)

lemma maxExtentOf_nonneg: "0 \<le> maxExtentOf pf boxS textS"
  by (simp add: maxExtentOf_def)

lemma example_pieces:
  "splitOn (CHR '','') colourFirstShadow = [''rgb(10'', '' 20'', '' 30) 5px 5px 10px 0px'']"
  "splitOn (CHR '','') colourLastShadow = [''5px 5px 10px 0px rgb(10'', '' 20'', '' 30)'']"
  unfolding colourFirstShadow_def colourLastShadow_def by code_simp+

lemma example_shadows:
  "shadowsOf colourFirstShadow = [[''30)'', ''5px'', ''5px'', ''10px'', ''0px'']]"
  "shadowsOf colourLastShadow = [[''5px'', ''5px'', ''10px'', ''0px'', ''rgb(10'']]"
  unfolding colourFirstShadow_def colourLastShadow_def by code_simp+

lemma example_tokens:
  "parseDecimal ''30)'' = Some 30" "parseDecimal ''5px'' = Some 5"
  "parseDecimal ''10px'' = Some 10" "parseDecimal ''0px'' = Some 0"
  by code_simp+

lemma example_extents:
  "shadowExtent parseDecimal [''30)'', ''5px'', ''5px'', ''10px'', ''0px''] = 45"
  "shadowExtent parseDecimal [''5px'', ''5px'', ''10px'', ''0px'', ''rgb(10''] = 15"
  by (simp_all add: shadowExtent_def tokenOr0_def example_tokens
      numeral_3_eq_3 del: One_nat_def)

lemma example_page_box: "pageBox unscrolledWindow shadowRect = shadowRect"
  by (simp add: pageBox_def unscrolledWindow_def shadowRect_def orElse_def)

text \<open>
  C8 (the code on a computed style value). The specification expands the capture box on all
  four sides by the maximum over the shadows of \<open>max(|offsetX|, |offsetY|) + blur + spread\<close>,
  so that the box \<open>{left: 100, top: 100, width: 200, height: 100}\<close> with the one shadow
  of offsets 5 and 5, blur 10 and spread 0 (extent 15) becomes
  \<open>{left: 85, top: 85, width: 230, height: 130}\<close>. The code splits the style value at
  every comma and reads the first four tokens of each piece as offset-x, offset-y, blur
  and spread. On the computed value \<open>rgb(10, 20, 30) 5px 5px 10px 0px\<close> the commas are
  those of the colour: the only piece with two tokens is \<open>30) 5px 5px 10px 0px\<close>, the
  extent comes out as \<open>max(30, 5) + 5 + 10 = 45\<close> and the box as
  \<open>{left: 55, top: 55, width: 290, height: 190}\<close>. On the same shadow written colour
  last the code computes 15 and the box of the specification.
\<close>

theorem shadow_colour_first_evaluation:
  "splitOn (CHR '','') colourFirstShadow = [''rgb(10'', '' 20'', '' 30) 5px 5px 10px 0px'']
   \<and> shadowsOf colourFirstShadow = [[''30)'', ''5px'', ''5px'', ''10px'', ''0px'']]
   \<and> parseShadowExtent parseDecimal colourFirstShadow = 45
   \<and> specShadowExtent 5 5 10 0 = 15
   \<and> shadowBounds (calculateShadowBounds parseDecimal unscrolledWindow shadowRect
         colourFirstShadow ''none'') =
       \<lparr> rect_x = 55, rect_y = 55, rect_width = 290, rect_height = 190,
         rect_top = 55, rect_right = 345, rect_bottom = 245, rect_left = 55 \<rparr>
   \<and> expandBox shadowRect (specShadowExtent 5 5 10 0) =
       \<lparr> rect_x = 85, rect_y = 85, rect_width = 230, rect_height = 130,
         rect_top = 85, rect_right = 315, rect_bottom = 215, rect_left = 85 \<rparr>
   \<and> parseShadowExtent parseDecimal colourLastShadow = 15
   \<and> shadowBounds (calculateShadowBounds parseDecimal unscrolledWindow shadowRect
         colourLastShadow ''none'') = expandBox shadowRect (specShadowExtent 5 5 10 0)"
proof -
  have f: "parseShadowExtent parseDecimal colourFirstShadow = 45"
    by (simp add: parseShadowExtent_Max example_shadows example_extents)
  have l: "parseShadowExtent parseDecimal colourLastShadow = 15"
    by (simp add: parseShadowExtent_Max example_shadows example_extents)
  have mf: "maxExtentOf parseDecimal colourFirstShadow ''none'' = 45"
    by (simp add: maxExtentOf_def example_shadows shadowsOf_absent example_extents)
  have ml: "maxExtentOf parseDecimal colourLastShadow ''none'' = 15"
    by (simp add: maxExtentOf_def example_shadows shadowsOf_absent example_extents)
  have s: "specShadowExtent 5 5 10 0 = 15"
    by (simp add: specShadowExtent_def)
  have e45: "expandBox shadowRect 45 =
       \<lparr> rect_x = 55, rect_y = 55, rect_width = 290, rect_height = 190,
         rect_top = 55, rect_right = 345, rect_bottom = 245, rect_left = 55 \<rparr>"
    by (simp add: expandBox_def shadowRect_def)
  have e15: "expandBox shadowRect 15 =
       \<lparr> rect_x = 85, rect_y = 85, rect_width = 230, rect_height = 130,
         rect_top = 85, rect_right = 315, rect_bottom = 215, rect_left = 85 \<rparr>"
    by (simp add: expandBox_def shadowRect_def)
  show ?thesis
    unfolding shadowBounds_expand example_page_box mf ml s
    by (simp add: example_pieces example_shadows f l e45 e15)
qed

end
